theory Spec2Isabelle
  imports Complex_Main
begin

section \<open>Numeric values\<close>

text \<open>
  An entry of a numpy float64 array. A finite entry carries its exact real value:
  rounding, overflow and underflow of the machine format are not part of this model.
  The two infinities and NaN are kept, since the program relies on numpy's rule that an
  invalid operation yields NaN (with a warning) instead of raising.

  Zero carries no sign. Every divisor the program forms is a square root, a sum of
  absolute values, the constant \<^verbatim>\<open>.1\<close> or the integer \<^verbatim>\<open>samples-1\<close>, so the only
  zero it divides by is the positive one.
\<close>

datatype npfloat = Fin real | PInf | NInf | NaN

fun fneg :: "npfloat \<Rightarrow> npfloat" where
  "fneg (Fin a) = Fin (- a)"
| "fneg PInf = NInf"
| "fneg NInf = PInf"
| "fneg NaN = NaN"

fun fadd :: "npfloat \<Rightarrow> npfloat \<Rightarrow> npfloat" where
  "fadd (Fin a) (Fin b) = Fin (a + b)"
| "fadd NaN y = NaN"
| "fadd x NaN = NaN"
| "fadd PInf NInf = NaN"
| "fadd NInf PInf = NaN"
| "fadd PInf y = PInf"
| "fadd x PInf = PInf"
| "fadd NInf y = NInf"
| "fadd x NInf = NInf"

definition fsub :: "npfloat \<Rightarrow> npfloat \<Rightarrow> npfloat" where
  "fsub x y = fadd x (fneg y)"

fun fmul :: "npfloat \<Rightarrow> npfloat \<Rightarrow> npfloat" where
  "fmul (Fin a) (Fin b) = Fin (a * b)"
| "fmul NaN y = NaN"
| "fmul x NaN = NaN"
| "fmul (Fin a) PInf = (if a = 0 then NaN else if 0 < a then PInf else NInf)"
| "fmul (Fin a) NInf = (if a = 0 then NaN else if 0 < a then NInf else PInf)"
| "fmul PInf (Fin b) = (if b = 0 then NaN else if 0 < b then PInf else NInf)"
| "fmul NInf (Fin b) = (if b = 0 then NaN else if 0 < b then NInf else PInf)"
| "fmul PInf PInf = PInf"
| "fmul PInf NInf = NInf"
| "fmul NInf PInf = NInf"
| "fmul NInf NInf = PInf"

fun fdiv :: "npfloat \<Rightarrow> npfloat \<Rightarrow> npfloat" where
  "fdiv (Fin a) (Fin b) =
     (if b = 0 then (if a = 0 then NaN else if 0 < a then PInf else NInf)
      else Fin (a / b))"
| "fdiv NaN y = NaN"
| "fdiv x NaN = NaN"
| "fdiv (Fin a) PInf = Fin 0"
| "fdiv (Fin a) NInf = Fin 0"
| "fdiv PInf (Fin b) = (if 0 \<le> b then PInf else NInf)"
| "fdiv NInf (Fin b) = (if 0 \<le> b then NInf else PInf)"
| "fdiv PInf PInf = NaN"
| "fdiv PInf NInf = NaN"
| "fdiv NInf PInf = NaN"
| "fdiv NInf NInf = NaN"

text \<open>\<^verbatim>\<open>x**2\<close>: numpy squares by multiplying the value with itself.\<close>

definition fsquare :: "npfloat \<Rightarrow> npfloat" where
  "fsquare x = fmul x x"

fun fsqrt :: "npfloat \<Rightarrow> npfloat" where
  "fsqrt (Fin a) = (if a < 0 then NaN else Fin (sqrt a))"
| "fsqrt PInf = PInf"
| "fsqrt NInf = NaN"
| "fsqrt NaN = NaN"

fun fabs :: "npfloat \<Rightarrow> npfloat" where
  "fabs (Fin a) = Fin \<bar>a\<bar>"
| "fabs PInf = PInf"
| "fabs NInf = PInf"
| "fabs NaN = NaN"

fun flog :: "npfloat \<Rightarrow> npfloat" where
  "flog (Fin a) = (if a < 0 then NaN else if a = 0 then NInf else Fin (ln a))"
| "flog PInf = PInf"
| "flog NInf = NaN"
| "flog NaN = NaN"

text \<open>\<^verbatim>\<open>x**.1\<close>: the real power with exponent one tenth.\<close>

fun fpow_tenth :: "npfloat \<Rightarrow> npfloat" where
  "fpow_tenth (Fin a) = (if a < 0 then NaN else Fin (a powr (1 / 10)))"
| "fpow_tenth PInf = PInf"
| "fpow_tenth NInf = PInf"
| "fpow_tenth NaN = NaN"

text \<open>\<^verbatim>\<open>np.spacing(1)\<close>: the gap between 1 and the next float64.\<close>

definition spacing1 :: real where
  "spacing1 = 1 / 2 ^ 52"

section \<open>Arrays\<close>

text \<open>
  A two-dimensional array is its shape and the list of its rows. The shape is kept beside
  the rows because an array with no rows still has a column count.
\<close>

record ndarray =
  nrows :: nat
  ncols :: nat
  rows :: "npfloat list list"

definition wf_array :: "ndarray \<Rightarrow> bool" where
  "wf_array A \<longleftrightarrow> length (rows A) = nrows A \<and> (\<forall>r \<in> set (rows A). length r = ncols A)"

text \<open>
  A numpy array is rectangular: it has as many rows as its shape says, each with as many
  entries as the shape has columns. \<open>wf_array\<close> states this of a value of the record.

  The argument \<^verbatim>\<open>x\<close> of the driver is a one- or a two-dimensional array of
  floating-point numbers.
\<close>

datatype array_in = Arr1 "npfloat list" | Arr2 ndarray

text \<open>\<^verbatim>\<open>x[:,np.newaxis]\<close> on a one-dimensional array: one column, one row per entry.\<close>

definition newaxis_col :: "npfloat list \<Rightarrow> ndarray" where
  "newaxis_col v = \<lparr>nrows = length v, ncols = 1, rows = map (\<lambda>a. [a]) v\<rparr>"

definition np_map :: "(npfloat \<Rightarrow> npfloat) \<Rightarrow> ndarray \<Rightarrow> ndarray" where
  "np_map f A = \<lparr>nrows = nrows A, ncols = ncols A, rows = map (map f) (rows A)\<rparr>"

definition col :: "ndarray \<Rightarrow> nat \<Rightarrow> npfloat list" where
  "col A j = map (\<lambda>r. r ! j) (rows A)"

definition np_transpose :: "ndarray \<Rightarrow> ndarray" where
  "np_transpose A = \<lparr>nrows = ncols A, ncols = nrows A, rows = map (col A) [0..<ncols A]\<rparr>"

text \<open>
  A bound of a Python slice against an axis of length \<open>n\<close>: a negative bound counts from
  the end, and every bound is clipped to the axis. Slicing never raises.
\<close>

definition slice_bound :: "int \<Rightarrow> nat \<Rightarrow> nat" where
  "slice_bound a n = (if a < 0 then nat (max 0 (a + int n)) else min (nat a) n)"

text \<open>\<^verbatim>\<open>A[a:b,:]\<close>\<close>

definition slice_rows :: "ndarray \<Rightarrow> int \<Rightarrow> int \<Rightarrow> ndarray" where
  "slice_rows A a b =
     (let lo = slice_bound a (nrows A); hi = slice_bound b (nrows A)
      in \<lparr>nrows = hi - lo, ncols = ncols A, rows = drop lo (take hi (rows A))\<rparr>)"

text \<open>\<^verbatim>\<open>np.diff(A,n=1,axis=0)\<close>, which numpy computes as \<^verbatim>\<open>A[1:] - A[:-1]\<close>.\<close>

definition np_diff :: "ndarray \<Rightarrow> ndarray" where
  "np_diff A =
     \<lparr>nrows = nrows A - 1, ncols = ncols A,
      rows = map2 (map2 fsub) (tl (rows A)) (butlast (rows A))\<rparr>"

text \<open>
  \<^verbatim>\<open>np.concatenate([np.zeros((1,channels)),B],axis=0)\<close>. The extractor only calls it
  with \<^verbatim>\<open>B\<close> a difference of a block that has \<^verbatim>\<open>channels\<close> columns, so the column
  counts agree and the concatenation is defined.
\<close>

definition zero_row_concat :: "nat \<Rightarrow> ndarray \<Rightarrow> ndarray" where
  "zero_row_concat channels B =
     \<lparr>nrows = 1 + nrows B, ncols = ncols B, rows = replicate channels (Fin 0) # rows B\<rparr>"

text \<open>\<^verbatim>\<open>np.sum(A,axis=0)\<close>: one sum per column, accumulated from the first row on.\<close>

definition np_sum0 :: "ndarray \<Rightarrow> npfloat list" where
  "np_sum0 A = map (\<lambda>j. foldl fadd (Fin 0) (col A j)) [0..<ncols A]"

section \<open>The moment extractor \<^verbatim>\<open>KSM1\<close>\<close>

text \<open>
  The extractor starts by turning a block with more columns than rows
  (\<^verbatim>\<open>if channels>samples: S = np.transpose(S)\<close>). The quantities below are those it
  computes from the block \<open>S\<close> it works on after that step, where \<^verbatim>\<open>samples\<close> is
  \<open>nrows S\<close> and \<^verbatim>\<open>channels\<close> is \<open>ncols S\<close>. Each of \<^verbatim>\<open>m0\<close>, \<^verbatim>\<open>m2\<close>,
  \<^verbatim>\<open>m4\<close>, \<^verbatim>\<open>sparsi\<close>, \<^verbatim>\<open>IRF\<close> and \<^verbatim>\<open>WLR\<close> is an array of shape
  \<open>(channels, 1)\<close> in the source and the list of its \<open>channels\<close> entries here.
\<close>

definition orient :: "ndarray \<Rightarrow> ndarray" where
  "orient S = (if nrows S < ncols S then np_transpose S else S)"

text \<open>\<^verbatim>\<open>m0 = np.sqrt(np.sum(S**2,axis=0))[:,np.newaxis]\<close>\<close>

definition KSM1_m0_root :: "ndarray \<Rightarrow> npfloat list" where
  "KSM1_m0_root S = map fsqrt (np_sum0 (np_map fsquare S))"

text \<open>\<^verbatim>\<open>m**.1 / .1\<close>, the step that follows each of the three root moments.\<close>

definition tenth_norm :: "npfloat \<Rightarrow> npfloat" where
  "tenth_norm m = fdiv (fpow_tenth m) (Fin (1 / 10))"

definition KSM1_m0 :: "ndarray \<Rightarrow> npfloat list" where
  "KSM1_m0 S = map tenth_norm (KSM1_m0_root S)"

definition KSM1_d1 :: "ndarray \<Rightarrow> ndarray" where
  "KSM1_d1 S = np_diff (zero_row_concat (ncols S) (np_diff S))"

definition KSM1_d2 :: "ndarray \<Rightarrow> ndarray" where
  "KSM1_d2 S = np_diff (zero_row_concat (ncols S) (np_diff (KSM1_d1 S)))"

text \<open>\<^verbatim>\<open>np.sqrt(np.sum(d**2,axis=0)/(samples-1))\<close> followed by \<^verbatim>\<open>m**.1/.1\<close>.\<close>

definition root_moment :: "ndarray \<Rightarrow> ndarray \<Rightarrow> npfloat list" where
  "root_moment S d =
     map (\<lambda>s. tenth_norm (fsqrt (fdiv s (Fin (real_of_int (int (nrows S) - 1))))))
       (np_sum0 (np_map fsquare d))"

definition KSM1_m2 :: "ndarray \<Rightarrow> npfloat list" where
  "KSM1_m2 S = root_moment S (KSM1_d1 S)"

definition KSM1_m4 :: "ndarray \<Rightarrow> npfloat list" where
  "KSM1_m4 S = root_moment S (KSM1_d2 S)"

text \<open>\<^verbatim>\<open>sparsi = m0/np.sqrt(np.abs((m0-m2)*(m0-m4)))\<close>\<close>

definition KSM1_sparsi :: "ndarray \<Rightarrow> npfloat list" where
  "KSM1_sparsi S =
     map2 fdiv (KSM1_m0 S)
       (map (\<lambda>p. fsqrt (fabs p))
          (map2 fmul (map2 fsub (KSM1_m0 S) (KSM1_m2 S)) (map2 fsub (KSM1_m0 S) (KSM1_m4 S))))"

text \<open>\<^verbatim>\<open>IRF = m2/np.sqrt(np.multiply(m0,m4))\<close>\<close>

definition KSM1_IRF :: "ndarray \<Rightarrow> npfloat list" where
  "KSM1_IRF S = map2 fdiv (KSM1_m2 S) (map fsqrt (map2 fmul (KSM1_m0 S) (KSM1_m4 S)))"

text \<open>\<^verbatim>\<open>WLR = np.sum(np.abs(d1),axis=0)/np.sum(np.abs(d2),axis=0)\<close>\<close>

definition KSM1_WLR :: "ndarray \<Rightarrow> npfloat list" where
  "KSM1_WLR S =
     map2 fdiv (np_sum0 (np_map fabs (KSM1_d1 S))) (np_sum0 (np_map fabs (KSM1_d2 S)))"

text \<open>
  \<^verbatim>\<open>Feat = np.concatenate((m0, m0-m2, m0-m4, sparsi, IRF, WLR), axis=0)\<close> and
  \<^verbatim>\<open>Feat = np.log(np.abs(Feat)).flatten()\<close>. The six arrays have shape
  \<open>(channels, 1)\<close>, their concatenation has shape \<open>(6 * channels, 1)\<close>, and flattening
  it lists its entries from the first row to the last.
\<close>

definition KSM1_stack :: "ndarray \<Rightarrow> npfloat list" where
  "KSM1_stack S =
     KSM1_m0 S @ map2 fsub (KSM1_m0 S) (KSM1_m2 S) @ map2 fsub (KSM1_m0 S) (KSM1_m4 S)
       @ KSM1_sparsi S @ KSM1_IRF S @ KSM1_WLR S"

definition log_abs :: "npfloat \<Rightarrow> npfloat" where
  "log_abs v = flog (fabs v)"

definition KSM1 :: "ndarray \<Rightarrow> npfloat list" where
  "KSM1 S0 = (let S = orient S0 in map log_abs (KSM1_stack S))"

section \<open>The window fusion driver \<^verbatim>\<open>getfTDDfeat_v2\<close>\<close>

text \<open>
  What the driver can raise. \<^verbatim>\<open>(datasize - winsize)/wininc\<close> divides two Python
  integers; \<^verbatim>\<open>np.zeros\<close> refuses a negative dimension; an elementwise operation or a
  row assignment refuses operands whose shapes do not broadcast; an index beyond the axis
  is refused.
\<close>

datatype error =
  ZeroDivisionError
  | ValueError_negative_dimensions
  | ValueError_broadcast
  | IndexError

definition as_2d :: "array_in \<Rightarrow> ndarray" where
  "as_2d xin = (case xin of Arr1 v \<Rightarrow> newaxis_col v | Arr2 A \<Rightarrow> A)"

text \<open>
  \<^verbatim>\<open>numwin = np.int(np.floor((datasize - winsize)/wininc)+1)\<close>, with \<^verbatim>\<open>np.int\<close> the
  alias of Python's \<^verbatim>\<open>int\<close> that numpy had when the program was written. The floor of
  the quotient is taken exactly, which is what the float64 quotient gives for every
  \<^verbatim>\<open>datasize\<close> below \<open>2 ^ 53\<close>.
\<close>

definition numwin_of :: "nat \<Rightarrow> int \<Rightarrow> int \<Rightarrow> error + int" where
  "numwin_of datasize winsize wininc =
     (if wininc = 0 then Inl ZeroDivisionError
      else Inr ((int datasize - winsize) div wininc + 1))"

definition NFPC :: nat where
  "NFPC = 6"

definition np_zeros :: "int \<Rightarrow> nat \<Rightarrow> error + ndarray" where
  "np_zeros m n =
     (if m < 0 then Inl ValueError_negative_dimensions
      else Inr \<lparr>nrows = nat m, ncols = n, rows = replicate (nat m) (replicate n (Fin 0))\<rparr>)"

text \<open>\<^verbatim>\<open>range(m)\<close>\<close>

definition range_py :: "int \<Rightarrow> nat list" where
  "range_py m = [0..<nat m]"

text \<open>
  An elementwise operation on two one-dimensional arrays: equal lengths, or one operand
  of length one that is stretched; anything else is refused.
\<close>

definition np_binop ::
  "(npfloat \<Rightarrow> npfloat \<Rightarrow> npfloat) \<Rightarrow> npfloat list \<Rightarrow> npfloat list \<Rightarrow> error + npfloat list" where
  "np_binop f u v =
     (if length u = length v then Inr (map2 f u v)
      else if length u = 1 then Inr (map (f (hd u)) v)
      else if length v = 1 then Inr (map (\<lambda>a. f a (hd v)) u)
      else Inl ValueError_broadcast)"

text \<open>
  \<^verbatim>\<open>np.log(W**2+np.spacing(1))**2\<close>, the nonlinear version of a window.
\<close>

definition nonlinear :: "ndarray \<Rightarrow> ndarray" where
  "nonlinear W = np_map (\<lambda>v. fsquare (flog (fadd (fsquare v) (Fin spacing1)))) W"

text \<open>
  The correlation step, which the loop body performs twice with the same two lines:
  \<^verbatim>\<open>num = -2*np.multiply(ebp,efp)\<close> and
  \<^verbatim>\<open>den = np.multiply(efp,efp)+np.multiply(ebp,ebp)\<close>.
\<close>

definition correlation ::
  "npfloat list \<Rightarrow> npfloat list \<Rightarrow> error + (npfloat list \<times> npfloat list)" where
  "correlation ebp efp =
     (case np_binop fmul ebp efp of Inl e \<Rightarrow> Inl e | Inr p \<Rightarrow>
     (case np_binop fmul efp efp of Inl e \<Rightarrow> Inl e | Inr ff \<Rightarrow>
     (case np_binop fmul ebp ebp of Inl e \<Rightarrow> Inl e | Inr bb \<Rightarrow>
     (case np_binop fadd ff bb of Inl e \<Rightarrow> Inl e | Inr den \<Rightarrow>
        Inr (map (fmul (Fin (- 2))) p, den)))))"

text \<open>
  The value the loop body assigns to \<^verbatim>\<open>feat[i,:]\<close>, from the running bounds
  \<^verbatim>\<open>st\<close> and \<^verbatim>\<open>en\<close>: \<^verbatim>\<open>np.multiply(num-den,num2-den2)\<close>.
\<close>

definition fTDD_row :: "ndarray \<Rightarrow> int \<Rightarrow> int \<Rightarrow> int \<Rightarrow> int \<Rightarrow> error + npfloat list" where
  "fTDD_row x steps wininc st en =
     (let curwin = slice_rows x st en;
          lagwin = slice_rows x (st - steps * wininc) (en - steps * wininc)
      in
     (case correlation (KSM1 lagwin) (KSM1 (nonlinear lagwin)) of Inl e \<Rightarrow> Inl e
      | Inr (num, den) \<Rightarrow>
     (case correlation (KSM1 curwin) (KSM1 (nonlinear curwin)) of Inl e \<Rightarrow> Inl e
      | Inr (num2, den2) \<Rightarrow>
     (case np_binop fsub num den of Inl e \<Rightarrow> Inl e | Inr a \<Rightarrow>
     (case np_binop fsub num2 den2 of Inl e \<Rightarrow> Inl e | Inr b \<Rightarrow>
        np_binop fmul a b)))))"

text \<open>\<^verbatim>\<open>feat[i,:] = v\<close>\<close>

definition assign_row :: "ndarray \<Rightarrow> nat \<Rightarrow> npfloat list \<Rightarrow> error + ndarray" where
  "assign_row feat i v =
     (if nrows feat \<le> i then Inl IndexError
      else if length v = ncols feat then Inr (feat\<lparr>rows := (rows feat)[i := v]\<rparr>)
      else if length v = 1
        then Inr (feat\<lparr>rows := (rows feat)[i := replicate (ncols feat) (hd v)]\<rparr>)
      else Inl ValueError_broadcast)"

text \<open>
  The loop \<^verbatim>\<open>for i in range(numwin-steps)\<close> over the indices still to visit, with the
  running bounds and the feature matrix as its state. An exception in the body ends it.
\<close>

fun fTDD_loop ::
  "ndarray \<Rightarrow> int \<Rightarrow> int \<Rightarrow> nat list \<Rightarrow> int \<Rightarrow> int \<Rightarrow> ndarray \<Rightarrow> error + ndarray" where
  "fTDD_loop x steps wininc [] st en feat = Inr feat"
| "fTDD_loop x steps wininc (i # is) st en feat =
     (case fTDD_row x steps wininc st en of Inl e \<Rightarrow> Inl e | Inr v \<Rightarrow>
     (case assign_row feat i v of Inl e \<Rightarrow> Inl e | Inr feat' \<Rightarrow>
        fTDD_loop x steps wininc is (st + wininc) (en + wininc) feat'))"

text \<open>
  The bounds \<^verbatim>\<open>(st, en)\<close> the loop holds on entry to each of its iterations: it moves
  them by \<^verbatim>\<open>wininc\<close> at the end of the body, whatever the body computed.
\<close>

fun fTDD_bounds :: "int \<Rightarrow> nat list \<Rightarrow> int \<Rightarrow> int \<Rightarrow> (int \<times> int) list" where
  "fTDD_bounds wininc [] st en = []"
| "fTDD_bounds wininc (i # is) st en = (st, en) # fTDD_bounds wininc is (st + wininc) (en + wininc)"

definition getfTDDfeat_v2 :: "array_in \<Rightarrow> int \<Rightarrow> int \<Rightarrow> int \<Rightarrow> error + ndarray" where
  "getfTDDfeat_v2 xin steps winsize wininc =
     (let x = as_2d xin; datasize = nrows x; Nsignals = ncols x in
      (case numwin_of datasize winsize wininc of Inl e \<Rightarrow> Inl e | Inr numwin \<Rightarrow>
      (case np_zeros (numwin - steps) (Nsignals * NFPC) of Inl e \<Rightarrow> Inl e | Inr feat \<Rightarrow>
        fTDD_loop x steps wininc (range_py (numwin - steps))
          (0 + steps * wininc) (winsize + steps * wininc) feat)))"

text \<open>
  The bounds of the slices \<^verbatim>\<open>x[st:en,:]\<close> and
  \<^verbatim>\<open>x[(st-steps*wininc):(en-steps*wininc),:]\<close> of every iteration of a call, in order.
\<close>

definition window_bounds :: "nat \<Rightarrow> int \<Rightarrow> int \<Rightarrow> int \<Rightarrow> (int \<times> int) list" where
  "window_bounds datasize steps winsize wininc =
     (case numwin_of datasize winsize wininc of Inl e \<Rightarrow> []
      | Inr numwin \<Rightarrow>
          fTDD_bounds wininc (range_py (numwin - steps))
            (0 + steps * wininc) (winsize + steps * wininc))"

section \<open>Inputs and reference formulas of the properties\<close>

text \<open>\<^verbatim>\<open>k*S\<close>, the block \<open>S\<close> with every sample scaled by the finite factor \<open>k\<close>.\<close>

definition np_scale :: "real \<Rightarrow> ndarray \<Rightarrow> ndarray" where
  "np_scale k S = np_map (fmul (Fin k)) S"

text \<open>A window of \<open>n\<close> samples of one channel that holds the value \<open>c\<close> throughout.\<close>

definition const_window :: "nat \<Rightarrow> real \<Rightarrow> ndarray" where
  "const_window n c = \<lparr>nrows = n, ncols = 1, rows = replicate n [Fin c]\<rparr>"

text \<open>
  The window at position \<open>k\<close> of the windowing scheme:
  \<^verbatim>\<open>x[k*wininc : k*wininc+winsize, :]\<close>.
\<close>

definition window_at :: "ndarray \<Rightarrow> int \<Rightarrow> int \<Rightarrow> int \<Rightarrow> ndarray" where
  "window_at x winsize wininc k = slice_rows x (k * wininc) (k * wininc + winsize)"

text \<open>
  The fusion formula as the specification words it, for moment vectors of one length:
  \<open>num = -2\<cdot>ebp\<cdot>efp\<close>, \<open>den = efp\<^sup>2 + ebp\<^sup>2\<close> and
  \<open>(num - den) * (num2 - den2)\<close>, all elementwise.
\<close>

definition spec_num :: "npfloat list \<Rightarrow> npfloat list \<Rightarrow> npfloat list" where
  "spec_num ebp efp = map (fmul (Fin (- 2))) (map2 fmul ebp efp)"

definition spec_den :: "npfloat list \<Rightarrow> npfloat list \<Rightarrow> npfloat list" where
  "spec_den ebp efp = map2 fadd (map2 fmul efp efp) (map2 fmul ebp ebp)"

definition spec_fusion :: "ndarray \<Rightarrow> ndarray \<Rightarrow> npfloat list" where
  "spec_fusion lagwin curwin =
     (let ebp = KSM1 lagwin; efp = KSM1 (nonlinear lagwin);
          ebp2 = KSM1 curwin; efp2 = KSM1 (nonlinear curwin)
      in map2 fmul (map2 fsub (spec_num ebp efp) (spec_den ebp efp))
           (map2 fsub (spec_num ebp2 efp2) (spec_den ebp2 efp2)))"

section \<open>Sample inputs\<close>

text \<open>
  The normalised zeroth moment \<^verbatim>\<open>m0\<close> of a constant window, written out:
  \<open>sqrt (n c\<^sup>2)\<close> raised to one tenth and divided by one tenth.
\<close>

definition m0_const :: "nat \<Rightarrow> real \<Rightarrow> real" where
  "m0_const n c = sqrt (real n * (c * c)) powr (1 / 10) / (1 / 10)"

text \<open>Four samples of one channel.\<close>

definition ex_one_channel :: ndarray where
  "ex_one_channel = \<lparr>nrows = 4, ncols = 1, rows = [[Fin 1], [Fin 2], [Fin 4], [Fin 7]]\<rparr>"

text \<open>Three samples of two channels.\<close>

definition ex_two_channel :: ndarray where
  "ex_two_channel =
     \<lparr>nrows = 3, ncols = 2, rows = [[Fin 1, Fin 2], [Fin 3, Fin 5], [Fin 4, Fin 9]]\<rparr>"

text \<open>Two samples of two channels.\<close>

definition ex_square :: ndarray where
  "ex_square = \<lparr>nrows = 2, ncols = 2, rows = [[Fin 1, Fin 2], [Fin 3, Fin 4]]\<rparr>"

section \<open>Shapes, slices and the loop\<close>

text \<open>
  The facts below are about the definitions above and are shared by the properties of
  the last section: the shape of every intermediate array, transposition, the effect of
  scaling on each numeric step, what a slice inside the array returns, the state of the
  loop after \<open>n\<close> iterations, and the extractor on a constant window.
\<close>

lemma length_np_sum0 [simp]: "length (np_sum0 A) = ncols A"
  by (simp add: np_sum0_def)

lemma np_map_shape [simp]: "nrows (np_map f A) = nrows A" "ncols (np_map f A) = ncols A"
  "rows (np_map f A) = map (map f) (rows A)"
  by (simp_all add: np_map_def)

lemma np_diff_shape [simp]: "nrows (np_diff A) = nrows A - 1" "ncols (np_diff A) = ncols A"
  by (simp_all add: np_diff_def)

lemma length_rows_np_diff [simp]: "length (rows (np_diff A)) = length (rows A) - 1"
  by (simp add: np_diff_def)

lemma zero_row_concat_shape [simp]: "nrows (zero_row_concat c B) = Suc (nrows B)"
  "ncols (zero_row_concat c B) = ncols B"
  "length (rows (zero_row_concat c B)) = Suc (length (rows B))"
  by (simp_all add: zero_row_concat_def)

lemma KSM1_d1_shape [simp]: "nrows (KSM1_d1 S) = nrows S - 1" "ncols (KSM1_d1 S) = ncols S"
  "length (rows (KSM1_d1 S)) = length (rows S) - 1"
  by (simp_all add: KSM1_d1_def)

lemma KSM1_d2_shape [simp]: "nrows (KSM1_d2 S) = nrows S - 2" "ncols (KSM1_d2 S) = ncols S"
  "length (rows (KSM1_d2 S)) = length (rows S) - 2"
  by (simp_all add: KSM1_d2_def)

lemma length_KSM1_parts [simp]:
  "length (KSM1_m0 S) = ncols S" "length (KSM1_m2 S) = ncols S" "length (KSM1_m4 S) = ncols S"
  "length (KSM1_sparsi S) = ncols S" "length (KSM1_IRF S) = ncols S" "length (KSM1_WLR S) = ncols S"
  by (simp_all add: KSM1_m0_def KSM1_m0_root_def KSM1_m2_def KSM1_m4_def root_moment_def
        KSM1_sparsi_def KSM1_IRF_def KSM1_WLR_def)

lemma length_KSM1_stack [simp]: "length (KSM1_stack S) = 6 * ncols S"
  by (simp add: KSM1_stack_def)

lemma length_KSM1: "length (KSM1 S0) = 6 * ncols (orient S0)"
  by (simp add: KSM1_def)

lemma orient_tall: "ncols S \<le> nrows S \<Longrightarrow> orient S = S"
  by (simp add: orient_def)

lemma KSM1_layout:
  assumes "ncols S \<le> nrows S"
  shows "length (KSM1 S) = 6 * ncols S \<and>
    (\<forall>j<ncols S.
       KSM1 S ! j = log_abs (KSM1_m0 S ! j) \<and>
       KSM1 S ! (ncols S + j) = log_abs (fsub (KSM1_m0 S ! j) (KSM1_m2 S ! j)) \<and>
       KSM1 S ! (2 * ncols S + j) = log_abs (fsub (KSM1_m0 S ! j) (KSM1_m4 S ! j)) \<and>
       KSM1 S ! (3 * ncols S + j) = log_abs (KSM1_sparsi S ! j) \<and>
       KSM1 S ! (4 * ncols S + j) = log_abs (KSM1_IRF S ! j) \<and>
       KSM1 S ! (5 * ncols S + j) = log_abs (KSM1_WLR S ! j))"
proof -
  have o: "orient S = S" using assms by (rule orient_tall)
  have len: "length (KSM1 S) = 6 * ncols S" by (simp add: length_KSM1 o)
  have ent: "KSM1 S ! k = log_abs (KSM1_stack S ! k)" if "k < 6 * ncols S" for k
    using that by (simp add: KSM1_def o)
  show ?thesis
  proof (intro conjI allI impI)
    show "length (KSM1 S) = 6 * ncols S" by (rule len)
  next
    fix j assume j: "j < ncols S"
    show "KSM1 S ! j = log_abs (KSM1_m0 S ! j)"
      using j by (simp add: ent KSM1_stack_def nth_append)
    show "KSM1 S ! (ncols S + j) = log_abs (fsub (KSM1_m0 S ! j) (KSM1_m2 S ! j))"
      using j by (simp add: ent KSM1_stack_def nth_append)
    show "KSM1 S ! (2 * ncols S + j) = log_abs (fsub (KSM1_m0 S ! j) (KSM1_m4 S ! j))"
      using j by (simp add: ent KSM1_stack_def nth_append)
    show "KSM1 S ! (3 * ncols S + j) = log_abs (KSM1_sparsi S ! j)"
      using j by (simp add: ent KSM1_stack_def nth_append)
    show "KSM1 S ! (4 * ncols S + j) = log_abs (KSM1_IRF S ! j)"
      using j by (simp add: ent KSM1_stack_def nth_append)
    show "KSM1 S ! (5 * ncols S + j) = log_abs (KSM1_WLR S ! j)"
      using j by (simp add: ent KSM1_stack_def nth_append)
  qed
qed

lemma col_transpose:
  assumes "wf_array S" "i < nrows S"
  shows "col (np_transpose S) i = rows S ! i"
proof -
  have len: "length (rows S ! i) = ncols S"
    using assms by (simp add: wf_array_def)
  have "col (np_transpose S) i = map (\<lambda>j. col S j ! i) [0..<ncols S]"
    by (simp add: col_def np_transpose_def)
  also have "\<dots> = map (\<lambda>j. (rows S ! i) ! j) [0..<ncols S]"
    using assms by (simp add: col_def wf_array_def)
  also have "\<dots> = rows S ! i"
    using len map_nth [of "rows S ! i"] by simp
  finally show ?thesis .
qed

lemma transpose_transpose:
  assumes "wf_array S"
  shows "np_transpose (np_transpose S) = S"
proof -
  have "map (col (np_transpose S)) [0..<nrows S] = map (\<lambda>i. rows S ! i) [0..<nrows S]"
    using assms by (simp add: col_transpose)
  also have "\<dots> = rows S"
    using assms map_nth [of "rows S"] by (simp add: wf_array_def)
  finally have "rows (np_transpose (np_transpose S)) = rows S"
    by (simp add: np_transpose_def)
  then show ?thesis
    by (simp add: np_transpose_def)
qed

lemma KSM1_transposed:
  assumes "wf_array S" "ncols S < nrows S"
  shows "KSM1 (np_transpose S) = KSM1 S"
proof -
  have "orient (np_transpose S) = np_transpose (np_transpose S)"
    using assms(2) by (simp add: orient_def np_transpose_def)
  then have "orient (np_transpose S) = S"
    using assms(1) by (simp add: transpose_transpose)
  moreover have "orient S = S"
    using assms(2) by (simp add: orient_def)
  ultimately show ?thesis
    by (simp add: KSM1_def)
qed

lemma fsquare_scale: "0 < k \<Longrightarrow> fsquare (fmul (Fin k) x) = fmul (Fin (k * k)) (fsquare x)"
  by (cases x) (simp_all add: fsquare_def)

lemma fadd_scale: "0 < k \<Longrightarrow> fadd (fmul (Fin k) x) (fmul (Fin k) y) = fmul (Fin k) (fadd x y)"
  by (cases x; cases y) (simp_all add: algebra_simps)

lemma foldl_fadd_scale:
  "0 < k \<Longrightarrow> foldl fadd (fmul (Fin k) a) (map (fmul (Fin k)) xs) = fmul (Fin k) (foldl fadd a xs)"
  by (induction xs arbitrary: a) (simp_all add: fadd_scale)

lemma fsqrt_scale: "0 < k \<Longrightarrow> fsqrt (fmul (Fin (k * k)) x) = fmul (Fin k) (fsqrt x)"
  by (cases x) (simp_all add: real_sqrt_mult mult_less_0_iff zero_less_mult_iff)

lemma fpow_tenth_scale:
  "0 < k \<Longrightarrow> fpow_tenth (fmul (Fin k) x) = fmul (Fin (k powr (1 / 10))) (fpow_tenth x)"
  by (cases x) (simp_all add: powr_mult mult_less_0_iff)

lemma tenth_norm_scale:
  "0 < k \<Longrightarrow> tenth_norm (fmul (Fin k) x) = fmul (Fin (k powr (1 / 10))) (tenth_norm x)"
  by (cases x) (simp_all add: tenth_norm_def powr_mult mult_less_0_iff)

lemma slice_bound_in: "0 \<le> a \<Longrightarrow> a \<le> int n \<Longrightarrow> slice_bound a n = nat a"
  by (simp add: slice_bound_def)

lemma slice_rows_in:
  assumes "wf_array A" "0 \<le> a" "a \<le> b" "b \<le> int (nrows A)"
  shows "nrows (slice_rows A a b) = nat (b - a)"
    and "ncols (slice_rows A a b) = ncols A"
    and "length (rows (slice_rows A a b)) = nat (b - a)"
    and "wf_array (slice_rows A a b)"
proof -
  have lo: "slice_bound a (nrows A) = nat a" using assms by (simp add: slice_bound_in)
  have hi: "slice_bound b (nrows A) = nat b" using assms by (simp add: slice_bound_in)
  have len: "length (rows A) = nrows A" using assms(1) by (simp add: wf_array_def)
  show n: "nrows (slice_rows A a b) = nat (b - a)"
    using assms by (simp add: slice_rows_def Let_def lo hi nat_diff_distrib)
  show "ncols (slice_rows A a b) = ncols A"
    by (simp add: slice_rows_def Let_def)
  show l: "length (rows (slice_rows A a b)) = nat (b - a)"
  proof -
    have "nat b \<le> nrows A" using assms by simp
    then show ?thesis
      using assms by (simp add: slice_rows_def Let_def lo hi len nat_diff_distrib)
  qed
  show "wf_array (slice_rows A a b)"
    using assms(1) n l
    by (auto simp: wf_array_def slice_rows_def Let_def dest!: in_set_dropD in_set_takeD)
qed

lemma nonlinear_shape [simp]:
  "nrows (nonlinear W) = nrows W" "ncols (nonlinear W) = ncols W"
  by (simp_all add: nonlinear_def)

lemma length_KSM1_tall: "ncols W \<le> nrows W \<Longrightarrow> length (KSM1 W) = 6 * ncols W"
  by (simp add: length_KSM1 orient_def)

lemma length_KSM1_wide: "nrows W < ncols W \<Longrightarrow> length (KSM1 W) = 6 * nrows W"
  by (simp add: length_KSM1 orient_def np_transpose_def)

lemma np_binop_same: "length u = length v \<Longrightarrow> np_binop f u v = Inr (map2 f u v)"
  by (simp add: np_binop_def)

lemma correlation_same:
  assumes "length ebp = length efp"
  shows "correlation ebp efp = Inr (spec_num ebp efp, spec_den ebp efp)"
  using assms by (simp add: correlation_def np_binop_same spec_num_def spec_den_def)

lemma length_spec_num [simp]: "length (spec_num b f) = min (length b) (length f)"
  by (simp add: spec_num_def)

lemma length_spec_den [simp]: "length (spec_den b f) = min (length b) (length f)"
  by (simp add: spec_den_def)

lemma fTDD_row_same:
  assumes "length (KSM1 (slice_rows x (st - steps * wininc) (en - steps * wininc))) = L"
    and "length (KSM1 (nonlinear (slice_rows x (st - steps * wininc) (en - steps * wininc)))) = L"
    and "length (KSM1 (slice_rows x st en)) = L"
    and "length (KSM1 (nonlinear (slice_rows x st en))) = L"
  shows "fTDD_row x steps wininc st en =
           Inr (spec_fusion (slice_rows x (st - steps * wininc) (en - steps * wininc))
                  (slice_rows x st en))"
    and "length (spec_fusion (slice_rows x (st - steps * wininc) (en - steps * wininc))
                  (slice_rows x st en)) = L"
  using assms
  by (simp_all add: fTDD_row_def Let_def correlation_same np_binop_same spec_fusion_def)

lemma div_mult_le_int:
  fixes a b k :: int
  assumes "0 < b" "0 \<le> k" "k \<le> a div b"
  shows "k * b \<le> a"
proof -
  have "k * b \<le> (a div b) * b"
    using assms by (simp add: mult_right_mono)
  also have "\<dots> \<le> a"
  proof -
    have "b * (a div b) + a mod b = a" by simp
    moreover have "0 \<le> a mod b" using assms(1) by simp
    ultimately have "b * (a div b) \<le> a" by linarith
    then show ?thesis by (simp add: mult.commute)
  qed
  finally show ?thesis .
qed

lemma assign_row_ok:
  "i < nrows feat \<Longrightarrow> length v = ncols feat \<Longrightarrow>
     assign_row feat i v = Inr (feat\<lparr>rows := (rows feat)[i := v]\<rparr>)"
  by (simp add: assign_row_def)

lemma fTDD_loop_ok:
  assumes "\<And>k. k < n \<Longrightarrow>
             fTDD_row x steps wininc (st + int k * wininc) (en + int k * wininc) = Inr (r k)"
    and "\<And>k. k < n \<Longrightarrow> length (r k) = ncols feat"
    and "i + n \<le> nrows feat"
    and "length (rows feat) = nrows feat"
  shows "\<exists>feat'. fTDD_loop x steps wininc [i..<i + n] st en feat = Inr feat' \<and>
           nrows feat' = nrows feat \<and> ncols feat' = ncols feat \<and>
           length (rows feat') = nrows feat \<and>
           (\<forall>k<n. rows feat' ! (i + k) = r k) \<and>
           (\<forall>j<i. rows feat' ! j = rows feat ! j)"
  using assms
proof (induction n arbitrary: i st en feat r)
  case 0
  then show ?case by simp
next
  case (Suc n)
  let ?f1 = "feat\<lparr>rows := (rows feat)[i := r 0]\<rparr>"
  have row0: "fTDD_row x steps wininc st en = Inr (r 0)"
    using Suc.prems(1) [of 0] by simp
  have as: "assign_row feat i (r 0) = Inr ?f1"
    using Suc.prems(2) [of 0] Suc.prems(3) by (simp add: assign_row_ok)
  have upt: "[i..<i + Suc n] = i # [Suc i..<Suc i + n]"
    by (simp add: upt_conv_Cons)
  have step: "fTDD_loop x steps wininc [i..<i + Suc n] st en feat =
              fTDD_loop x steps wininc [Suc i..<Suc i + n] (st + wininc) (en + wininc) ?f1"
    unfolding upt by (simp add: row0 as)
  have p1: "\<And>k. k < n \<Longrightarrow>
      fTDD_row x steps wininc (st + wininc + int k * wininc) (en + wininc + int k * wininc)
        = Inr (r (Suc k))"
  proof -
    fix k assume "k < n"
    then have "fTDD_row x steps wininc (st + int (Suc k) * wininc) (en + int (Suc k) * wininc)
        = Inr (r (Suc k))"
      using Suc.prems(1) [of "Suc k"] by simp
    moreover have "st + int (Suc k) * wininc = st + wininc + int k * wininc"
      by (simp add: algebra_simps)
    moreover have "en + int (Suc k) * wininc = en + wininc + int k * wininc"
      by (simp add: algebra_simps)
    ultimately show "fTDD_row x steps wininc (st + wininc + int k * wininc)
        (en + wininc + int k * wininc) = Inr (r (Suc k))"
      by (simp only:)
  qed
  have p2: "\<And>k. k < n \<Longrightarrow> length (r (Suc k)) = ncols ?f1"
    using Suc.prems(2) by simp
  have p3: "Suc i + n \<le> nrows ?f1" using Suc.prems(3) by simp
  have p4: "length (rows ?f1) = nrows ?f1" using Suc.prems(4) by simp
  from Suc.IH [of "st + wininc" "en + wininc" "\<lambda>k. r (Suc k)" ?f1 "Suc i", OF p1 p2 p3 p4]
  obtain feat' where f:
    "fTDD_loop x steps wininc [Suc i..<Suc i + n] (st + wininc) (en + wininc) ?f1 = Inr feat'"
    "nrows feat' = nrows ?f1" "ncols feat' = ncols ?f1" "length (rows feat') = nrows ?f1"
    "\<forall>k<n. rows feat' ! (Suc i + k) = r (Suc k)"
    "\<forall>j<Suc i. rows feat' ! j = rows ?f1 ! j"
    by blast
  have at_i: "rows feat' ! i = r 0"
    using f(6) Suc.prems(3) Suc.prems(4) by simp
  have later: "\<forall>k<Suc n. rows feat' ! (i + k) = r k"
  proof (intro allI impI)
    fix k assume k: "k < Suc n"
    show "rows feat' ! (i + k) = r k"
    proof (cases k)
      case 0
      then show ?thesis using at_i by simp
    next
      case (Suc k')
      then show ?thesis using f(5) k by simp
    qed
  qed
  have before: "\<forall>j<i. rows feat' ! j = rows feat ! j"
    using f(6) by simp
  show ?case
    using step f(1-4) later before by simp
qed

lemma fTDD_loop_raises:
  assumes "fTDD_row x steps wininc st en = Inr v"
    and "i < nrows feat" "length v \<noteq> ncols feat" "length v \<noteq> 1"
  shows "fTDD_loop x steps wininc (i # is) st en feat = Inl ValueError_broadcast"
  using assms by (simp add: assign_row_def)

lemma numwin_of_Inr:
  "numwin_of d w inc = Inr numwin \<longleftrightarrow> inc \<noteq> 0 \<and> numwin = (int d - w) div inc + 1"
  by (auto simp: numwin_of_def)

lemma window_at_in:
  assumes "wf_array x" "0 < wininc" "0 \<le> j" "j \<le> (int (nrows x) - winsize) div wininc"
    and "0 \<le> winsize"
  shows "0 \<le> j * wininc" and "j * wininc + winsize \<le> int (nrows x)"
    and "nrows (window_at x winsize wininc j) = nat winsize"
    and "ncols (window_at x winsize wininc j) = ncols x"
    and "length (rows (window_at x winsize wininc j)) = nat winsize"
    and "wf_array (window_at x winsize wininc j)"
proof -
  show lo: "0 \<le> j * wininc" using assms by simp
  have "j * wininc \<le> int (nrows x) - winsize"
    using assms by (intro div_mult_le_int) simp_all
  then show hi: "j * wininc + winsize \<le> int (nrows x)" by simp
  have le: "j * wininc \<le> j * wininc + winsize" using assms by simp
  show "nrows (window_at x winsize wininc j) = nat winsize"
    using slice_rows_in(1) [OF assms(1) lo le hi] by (simp add: window_at_def)
  show "ncols (window_at x winsize wininc j) = ncols x"
    using slice_rows_in(2) [OF assms(1) lo le hi] by (simp add: window_at_def)
  show "length (rows (window_at x winsize wininc j)) = nat winsize"
    using slice_rows_in(3) [OF assms(1) lo le hi] by (simp add: window_at_def)
  show "wf_array (window_at x winsize wininc j)"
    using slice_rows_in(4) [OF assms(1) lo le hi] by (simp add: window_at_def)
qed

lemma length_KSM1_window:
  assumes "nrows W = nat winsize" "ncols W = c" "0 \<le> winsize"
  shows "length (KSM1 W) = 6 * (if int c \<le> winsize then c else nat winsize)"
    and "length (KSM1 (nonlinear W)) = 6 * (if int c \<le> winsize then c else nat winsize)"
proof -
  show "length (KSM1 W) = 6 * (if int c \<le> winsize then c else nat winsize)"
  proof (cases "int c \<le> winsize")
    case True
    then have "ncols W \<le> nrows W" using assms by simp
    then show ?thesis using True assms by (simp add: length_KSM1_tall)
  next
    case False
    then have "nrows W < ncols W" using assms by simp
    then show ?thesis using False assms by (simp add: length_KSM1_wide)
  qed
  show "length (KSM1 (nonlinear W)) = 6 * (if int c \<le> winsize then c else nat winsize)"
  proof (cases "int c \<le> winsize")
    case True
    then have "ncols (nonlinear W) \<le> nrows (nonlinear W)" using assms by simp
    then show ?thesis using True assms by (simp add: length_KSM1_tall)
  next
    case False
    then have "nrows (nonlinear W) < ncols (nonlinear W)" using assms by simp
    then show ?thesis using False assms by (simp add: length_KSM1_wide)
  qed
qed

lemma fTDD_row_at:
  assumes wf: "wf_array x" and inc: "0 < wininc" and st: "0 \<le> steps" and w: "0 \<le> winsize"
    and k: "int k + steps \<le> (int (nrows x) - winsize) div wininc"
  shows "fTDD_row x steps wininc (0 + steps * wininc + int k * wininc)
           (winsize + steps * wininc + int k * wininc) =
         Inr (spec_fusion (window_at x winsize wininc (int k))
                (window_at x winsize wininc (int k + steps)))"
    and "length (spec_fusion (window_at x winsize wininc (int k))
                (window_at x winsize wininc (int k + steps))) =
         6 * (if int (ncols x) \<le> winsize then ncols x else nat winsize)"
proof -
  let ?st = "0 + steps * wininc + int k * wininc"
  let ?en = "winsize + steps * wininc + int k * wininc"
  let ?L = "6 * (if int (ncols x) \<le> winsize then ncols x else nat winsize)"
  have cur: "slice_rows x ?st ?en = window_at x winsize wininc (int k + steps)"
    by (simp add: window_at_def algebra_simps)
  have lag: "slice_rows x (?st - steps * wininc) (?en - steps * wininc) =
             window_at x winsize wininc (int k)"
    by (simp add: window_at_def algebra_simps)
  have k0: "int k \<le> (int (nrows x) - winsize) div wininc" using k st by simp
  have kc: "0 \<le> int k + steps" using st by simp
  note c = window_at_in [OF wf inc kc k w]
  note l = window_at_in [OF wf inc _ k0 w, simplified]
  have 1: "length (KSM1 (slice_rows x (?st - steps * wininc) (?en - steps * wininc))) = ?L"
    unfolding lag using length_KSM1_window(1) [OF l(3) l(4) w] .
  have 2: "length (KSM1 (nonlinear (slice_rows x (?st - steps * wininc) (?en - steps * wininc)))) = ?L"
    unfolding lag using length_KSM1_window(2) [OF l(3) l(4) w] .
  have 3: "length (KSM1 (slice_rows x ?st ?en)) = ?L"
    unfolding cur using length_KSM1_window(1) [OF c(3) c(4) w] .
  have 4: "length (KSM1 (nonlinear (slice_rows x ?st ?en))) = ?L"
    unfolding cur using length_KSM1_window(2) [OF c(3) c(4) w] .
  show "fTDD_row x steps wininc ?st ?en =
         Inr (spec_fusion (window_at x winsize wininc (int k))
                (window_at x winsize wininc (int k + steps)))"
    using fTDD_row_same(1) [OF 1 2 3 4] unfolding lag cur .
  show "length (spec_fusion (window_at x winsize wininc (int k))
                (window_at x winsize wininc (int k + steps))) = ?L"
    using fTDD_row_same(2) [OF 1 2 3 4] unfolding lag cur .
qed

lemma np_zeros_ok:
  "0 \<le> m \<Longrightarrow> np_zeros m n =
     Inr \<lparr>nrows = nat m, ncols = n, rows = replicate (nat m) (replicate n (Fin 0))\<rparr>"
  by (simp add: np_zeros_def)

lemma driver_returns:
  assumes wf: "wf_array x"
    and nw: "numwin_of (nrows x) winsize wininc = Inr numwin"
    and inc: "1 \<le> wininc" and st: "0 \<le> steps" "steps \<le> numwin"
    and w: "int (ncols x) \<le> winsize"
  shows "\<exists>feat. getfTDDfeat_v2 (Arr2 x) steps winsize wininc = Inr feat \<and>
           nrows feat = nat (numwin - steps) \<and> ncols feat = ncols x * 6 \<and>
           wf_array feat \<and>
           (\<forall>i<nat (numwin - steps).
              rows feat ! i = spec_fusion (window_at x winsize wininc (int i))
                                (window_at x winsize wininc (int i + steps)))"
proof -
  let ?n = "nat (numwin - steps)"
  let ?feat0 = "\<lparr>nrows = ?n, ncols = ncols x * NFPC,
                  rows = replicate ?n (replicate (ncols x * NFPC) (Fin 0))\<rparr>"
  let ?r = "\<lambda>k. spec_fusion (window_at x winsize wininc (int k))
                    (window_at x winsize wininc (int k + steps))"
  have nwv: "numwin = (int (nrows x) - winsize) div wininc + 1"
    using nw by (simp add: numwin_of_Inr)
  have inc0: "0 < wininc" using inc by simp
  have w0: "0 \<le> winsize" using w by simp
  have zeros: "np_zeros (numwin - steps) (ncols x * NFPC) = Inr ?feat0"
    using st by (simp add: np_zeros_ok)
  have rng: "range_py (numwin - steps) = [0..<0 + ?n]"
    by (simp add: range_py_def)
  have body: "fTDD_row x steps wininc (0 + steps * wininc + int k * wininc)
                (winsize + steps * wininc + int k * wininc) = Inr (?r k)"
    and blen: "length (?r k) = ncols ?feat0" if "k < ?n" for k
  proof -
    have kk: "int k + steps \<le> (int (nrows x) - winsize) div wininc"
      using that nwv by simp
    show "fTDD_row x steps wininc (0 + steps * wininc + int k * wininc)
                (winsize + steps * wininc + int k * wininc) = Inr (?r k)"
      using fTDD_row_at(1) [OF wf inc0 st(1) w0 kk] .
    show "length (?r k) = ncols ?feat0"
      using fTDD_row_at(2) [OF wf inc0 st(1) w0 kk] w by (simp add: NFPC_def)
  qed
  have "\<exists>feat'. fTDD_loop x steps wininc [0..<0 + ?n] (0 + steps * wininc)
           (winsize + steps * wininc) ?feat0 = Inr feat' \<and>
           nrows feat' = nrows ?feat0 \<and> ncols feat' = ncols ?feat0 \<and>
           length (rows feat') = nrows ?feat0 \<and>
           (\<forall>k<?n. rows feat' ! (0 + k) = ?r k) \<and>
           (\<forall>j<0. rows feat' ! j = rows ?feat0 ! j)"
  proof (rule fTDD_loop_ok)
    fix k assume "k < ?n"
    then show "fTDD_row x steps wininc (0 + steps * wininc + int k * wininc)
                (winsize + steps * wininc + int k * wininc) = Inr (?r k)"
      by (rule body)
  next
    fix k assume "k < ?n"
    then show "length (?r k) = ncols ?feat0" by (rule blen)
  qed simp_all
  then obtain feat' where f:
    "fTDD_loop x steps wininc [0..<0 + ?n] (0 + steps * wininc)
           (winsize + steps * wininc) ?feat0 = Inr feat'"
    "nrows feat' = ?n" "ncols feat' = ncols x * NFPC" "length (rows feat') = ?n"
    "\<forall>k<?n. rows feat' ! k = ?r k"
    by auto
  have res: "getfTDDfeat_v2 (Arr2 x) steps winsize wininc = Inr feat'"
    using f(1) by (simp add: getfTDDfeat_v2_def as_2d_def Let_def nw zeros rng)
  have "length r = ncols feat'" if "r \<in> set (rows feat')" for r
  proof -
    from that obtain k where k: "k < ?n" "r = rows feat' ! k"
      using f(4) by (auto simp: in_set_conv_nth)
    then show ?thesis using f(5) f(3) blen [of k] by simp
  qed
  then have "wf_array feat'"
    using f(2) f(4) by (simp add: wf_array_def)
  then show ?thesis
    using res f(2) f(3) f(5) by (auto simp: NFPC_def)
qed

lemma driver_no_windows:
  assumes "numwin_of (nrows (as_2d xin)) winsize wininc = Inr steps"
  shows "getfTDDfeat_v2 xin steps winsize wininc =
           Inr \<lparr>nrows = 0, ncols = ncols (as_2d xin) * 6, rows = []\<rparr>"
  using assms by (simp add: getfTDDfeat_v2_def Let_def np_zeros_def range_py_def NFPC_def)

lemma driver_raises:
  assumes wf: "wf_array x"
    and nw: "numwin_of (nrows x) winsize wininc = Inr numwin"
    and inc: "1 \<le> wininc" and st: "0 \<le> steps" "steps < numwin"
    and w: "0 \<le> winsize" "winsize < int (ncols x)"
  shows "getfTDDfeat_v2 (Arr2 x) steps winsize wininc = Inl ValueError_broadcast"
proof -
  let ?n = "nat (numwin - steps)"
  let ?feat0 = "\<lparr>nrows = ?n, ncols = ncols x * NFPC,
                  rows = replicate ?n (replicate (ncols x * NFPC) (Fin 0))\<rparr>"
  let ?v = "spec_fusion (window_at x winsize wininc (int 0))
                    (window_at x winsize wininc (int 0 + steps))"
  have nwv: "numwin = (int (nrows x) - winsize) div wininc + 1"
    using nw by (simp add: numwin_of_Inr)
  have inc0: "0 < wininc" using inc by simp
  have zeros: "np_zeros (numwin - steps) (ncols x * NFPC) = Inr ?feat0"
    using st by (simp add: np_zeros_ok)
  have n0: "0 < ?n" using st by simp
  then have rng: "range_py (numwin - steps) = 0 # [Suc 0..<?n]"
    by (simp add: range_py_def upt_conv_Cons)
  have kk: "int 0 + steps \<le> (int (nrows x) - winsize) div wininc"
    using st nwv by simp
  have body: "fTDD_row x steps wininc (0 + steps * wininc) (winsize + steps * wininc) = Inr ?v"
    using fTDD_row_at(1) [OF wf inc0 st(1) w(1) kk] by simp
  have len: "length ?v = 6 * nat winsize"
    using fTDD_row_at(2) [OF wf inc0 st(1) w(1) kk] w by simp
  have ne: "length ?v \<noteq> ncols ?feat0" "length ?v \<noteq> 1"
    using len w by (simp_all add: NFPC_def)
  have "fTDD_loop x steps wininc (0 # [Suc 0..<?n]) (0 + steps * wininc)
          (winsize + steps * wininc) ?feat0 = Inl ValueError_broadcast"
    by (rule fTDD_loop_raises [OF body _ ne]) (use st in simp)
  then show ?thesis
    by (simp add: getfTDDfeat_v2_def as_2d_def Let_def nw zeros rng)
qed

lemma fTDD_bounds_length [simp]: "length (fTDD_bounds wininc is st en) = length is"
  by (induction "is" arbitrary: st en) simp_all

lemma fTDD_bounds_nth:
  "k < length is \<Longrightarrow>
     fTDD_bounds wininc is st en ! k = (st + int k * wininc, en + int k * wininc)"
proof (induction "is" arbitrary: st en k)
  case Nil
  then show ?case by simp
next
  case (Cons i "is")
  show ?case
  proof (cases k)
    case 0
    then show ?thesis by simp
  next
    case (Suc k')
    then have "k' < length is" using Cons.prems by simp
    then show ?thesis
      using Cons.IH [of k' "st + wininc" "en + wininc"] Suc by (simp add: algebra_simps)
  qed
qed

lemma col_np_map:
  assumes "wf_array A" "j < ncols A"
  shows "col (np_map f A) j = map f (col A j)"
  using assms by (simp add: col_def wf_array_def)

lemma np_sum0_squares_scale:
  assumes "wf_array S" "0 < k"
  shows "np_sum0 (np_map fsquare (np_scale k S)) =
         map (fmul (Fin (k * k))) (np_sum0 (np_map fsquare S))"
proof -
  have kk: "0 < k * k" using assms(2) by simp
  have wfs: "wf_array (np_scale k S)"
    using assms(1) by (simp add: wf_array_def np_scale_def)
  have "foldl fadd (Fin 0) (col (np_map fsquare (np_scale k S)) j) =
        fmul (Fin (k * k)) (foldl fadd (Fin 0) (col (np_map fsquare S) j))"
    if "j < ncols S" for j
  proof -
    have "col (np_map fsquare (np_scale k S)) j = map fsquare (map (fmul (Fin k)) (col S j))"
      using that assms(1) wfs by (simp add: col_np_map np_scale_def)
    also have "\<dots> = map (fmul (Fin (k * k))) (map fsquare (col S j))"
      using assms(2) by (simp add: fsquare_scale)
    finally have "col (np_map fsquare (np_scale k S)) j =
                  map (fmul (Fin (k * k))) (col (np_map fsquare S) j)"
      using that assms(1) by (simp add: col_np_map)
    then show ?thesis
      using foldl_fadd_scale [OF kk, of "Fin 0"] by simp
  qed
  then show ?thesis
    by (simp add: np_sum0_def np_scale_def)
qed

lemma KSM1_m0_root_scale:
  assumes "wf_array S" "0 < k"
  shows "KSM1_m0_root (np_scale k S) = map (fmul (Fin k)) (KSM1_m0_root S)"
  using assms by (simp add: KSM1_m0_root_def np_sum0_squares_scale fsqrt_scale)

lemma KSM1_m0_scale:
  assumes "wf_array S" "0 < k"
  shows "KSM1_m0 (np_scale k S) = map (fmul (Fin (k powr (1 / 10)))) (KSM1_m0 S)"
  using assms by (simp add: KSM1_m0_def KSM1_m0_root_scale tenth_norm_scale)

lemma orient_scale_tall:
  "ncols S \<le> nrows S \<Longrightarrow> orient (np_scale k S) = np_scale k S"
  by (simp add: orient_def np_scale_def)

lemma np_diff_const:
  "np_diff \<lparr>nrows = m, ncols = 1, rows = replicate m [Fin a]\<rparr> =
     \<lparr>nrows = m - 1, ncols = 1, rows = replicate (m - 1) [Fin 0]\<rparr>"
  by (simp add: np_diff_def butlast_conv_take zip_replicate fsub_def)

lemma foldl_fadd_const: "foldl fadd (Fin s) (replicate m (Fin a)) = Fin (s + real m * a)"
  by (induction m arbitrary: s) (simp_all add: algebra_simps)

lemma np_sum0_const:
  "np_sum0 (np_map f \<lparr>nrows = m, ncols = 1, rows = replicate m [Fin a]\<rparr>) =
     [foldl fadd (Fin 0) (replicate m (f (Fin a)))]"
  by (simp add: np_sum0_def col_def)

lemma const_window_sel [simp]:
  "nrows (const_window n c) = n" "ncols (const_window n c) = 1"
  "rows (const_window n c) = replicate n [Fin c]"
  by (simp_all add: const_window_def)

lemma zero_row_concat_zeros:
  "zero_row_concat 1 \<lparr>nrows = m, ncols = 1, rows = replicate m [Fin 0]\<rparr> =
     \<lparr>nrows = Suc m, ncols = 1, rows = replicate (Suc m) [Fin 0]\<rparr>"
  by (simp add: zero_row_concat_def)

lemma diff_pad_diff_const:
  "np_diff (zero_row_concat 1 (np_diff \<lparr>nrows = m, ncols = 1, rows = replicate m [Fin a]\<rparr>)) =
     \<lparr>nrows = m - 1, ncols = 1, rows = replicate (m - 1) [Fin 0]\<rparr>"
proof -
  have "np_diff (zero_row_concat 1 (np_diff \<lparr>nrows = m, ncols = 1, rows = replicate m [Fin a]\<rparr>)) =
        np_diff (zero_row_concat 1 \<lparr>nrows = m - 1, ncols = 1, rows = replicate (m - 1) [Fin 0]\<rparr>)"
    by (simp only: np_diff_const)
  also have "\<dots> = np_diff \<lparr>nrows = Suc (m - 1), ncols = 1, rows = replicate (Suc (m - 1)) [Fin 0]\<rparr>"
    by (simp only: zero_row_concat_zeros)
  also have "\<dots> = \<lparr>nrows = Suc (m - 1) - 1, ncols = 1, rows = replicate (Suc (m - 1) - 1) [Fin 0]\<rparr>"
    by (rule np_diff_const)
  finally show ?thesis by simp
qed

lemma KSM1_d1_const:
  "KSM1_d1 (const_window n c) = \<lparr>nrows = n - 1, ncols = 1, rows = replicate (n - 1) [Fin 0]\<rparr>"
proof -
  have "KSM1_d1 (const_window n c) =
        np_diff (zero_row_concat 1 (np_diff \<lparr>nrows = n, ncols = 1, rows = replicate n [Fin c]\<rparr>))"
    by (simp add: KSM1_d1_def const_window_def)
  then show ?thesis by (simp only: diff_pad_diff_const)
qed

lemma KSM1_d2_const:
  "KSM1_d2 (const_window n c) = \<lparr>nrows = n - 2, ncols = 1, rows = replicate (n - 2) [Fin 0]\<rparr>"
proof -
  have "KSM1_d2 (const_window n c) =
        np_diff (zero_row_concat 1
          (np_diff \<lparr>nrows = n - 1, ncols = 1, rows = replicate (n - 1) [Fin 0]\<rparr>))"
    by (simp add: KSM1_d2_def KSM1_d1_const)
  also have "\<dots> = \<lparr>nrows = n - 1 - 1, ncols = 1, rows = replicate (n - 1 - 1) [Fin 0]\<rparr>"
    by (rule diff_pad_diff_const)
  finally show ?thesis by (simp add: numeral_2_eq_2)
qed

lemma m0_const_pos: "0 < n \<Longrightarrow> c \<noteq> 0 \<Longrightarrow> 0 < m0_const n c"
  by (simp add: m0_const_def)

lemma np_sum0_zeros:
  "np_sum0 (np_map f \<lparr>nrows = m, ncols = 1, rows = replicate m [Fin 0]\<rparr>) =
     [foldl fadd (Fin 0) (replicate m (f (Fin 0)))]"
  by (rule np_sum0_const)

lemma KSM1_m0_const: "KSM1_m0 (const_window n c) = [Fin (m0_const n c)]"
proof -
  have "np_sum0 (np_map fsquare (const_window n c)) = [Fin (real n * (c * c))]"
    unfolding const_window_def np_sum0_const by (simp add: fsquare_def foldl_fadd_const)
  then show ?thesis
    by (simp add: KSM1_m0_def KSM1_m0_root_def tenth_norm_def m0_const_def mult_less_0_iff)
qed

lemma root_moment_zeros:
  assumes "2 \<le> nrows S"
  shows "root_moment S \<lparr>nrows = m, ncols = 1, rows = replicate m [Fin 0]\<rparr> = [Fin 0]"
proof -
  have "np_sum0 (np_map fsquare \<lparr>nrows = m, ncols = 1, rows = replicate m [Fin 0]\<rparr>) = [Fin 0]"
    unfolding np_sum0_const by (simp add: fsquare_def foldl_fadd_const)
  moreover have "real_of_int (int (nrows S) - 1) \<noteq> 0" using assms by simp
  ultimately show ?thesis
    by (simp add: root_moment_def tenth_norm_def)
qed

lemma KSM1_m2_const: "2 \<le> n \<Longrightarrow> KSM1_m2 (const_window n c) = [Fin 0]"
  unfolding KSM1_m2_def KSM1_d1_const by (rule root_moment_zeros) simp

lemma KSM1_m4_const: "2 \<le> n \<Longrightarrow> KSM1_m4 (const_window n c) = [Fin 0]"
  unfolding KSM1_m4_def KSM1_d2_const by (rule root_moment_zeros) simp

lemma KSM1_sparsi_const:
  assumes "2 \<le> n" "c \<noteq> 0"
  shows "KSM1_sparsi (const_window n c) = [Fin 1]"
proof -
  have "0 < m0_const n c" using assms by (simp add: m0_const_pos)
  then show ?thesis
    using assms(1)
    by (simp add: KSM1_sparsi_def KSM1_m0_const KSM1_m2_const KSM1_m4_const fsub_def
          real_sqrt_abs2 abs_mult)
qed

lemma KSM1_IRF_const: "2 \<le> n \<Longrightarrow> KSM1_IRF (const_window n c) = [NaN]"
  by (simp add: KSM1_IRF_def KSM1_m0_const KSM1_m2_const KSM1_m4_const)

lemma KSM1_WLR_const: "KSM1_WLR (const_window n c) = [NaN]"
proof -
  have "np_sum0 (np_map fabs \<lparr>nrows = m, ncols = 1, rows = replicate m [Fin 0]\<rparr>) = [Fin 0]" for m
    unfolding np_sum0_const by (simp add: foldl_fadd_const)
  then show ?thesis
    by (simp add: KSM1_WLR_def KSM1_d1_const KSM1_d2_const)
qed

lemma KSM1_const:
  assumes "2 \<le> n" "c \<noteq> 0"
  shows "KSM1 (const_window n c) =
    [Fin (ln (m0_const n c)), Fin (ln (m0_const n c)), Fin (ln (m0_const n c)), Fin 0, NaN, NaN]"
proof -
  have pos: "0 < m0_const n c" using assms by (simp add: m0_const_pos)
  have o: "orient (const_window n c) = const_window n c"
    using assms(1) by (simp add: orient_def)
  show ?thesis
    using pos assms(1)
    by (simp add: KSM1_def o KSM1_stack_def KSM1_m0_const KSM1_m2_const KSM1_m4_const
          KSM1_sparsi_const [OF assms] KSM1_IRF_const KSM1_WLR_const log_abs_def fsub_def)
qed

lemma ex_one_channel_sel [simp]:
  "nrows ex_one_channel = 4" "ncols ex_one_channel = 1" "wf_array ex_one_channel"
  by (simp_all add: ex_one_channel_def wf_array_def)

lemma ex_two_channel_sel [simp]:
  "nrows ex_two_channel = 3" "ncols ex_two_channel = 2" "wf_array ex_two_channel"
  by (simp_all add: ex_two_channel_def wf_array_def)

lemma ex_square_sel [simp]:
  "nrows ex_square = 2" "ncols ex_square = 2" "wf_array ex_square"
  by (simp_all add: ex_square_def wf_array_def)

lemma wf_const_window [simp]: "wf_array (const_window n c)"
  by (simp add: wf_array_def)

lemma wf_newaxis_col [simp]: "wf_array (newaxis_col v)"
  by (auto simp: wf_array_def newaxis_col_def)

lemma newaxis_col_sel [simp]: "nrows (newaxis_col v) = length v" "ncols (newaxis_col v) = 1"
  by (simp_all add: newaxis_col_def)

lemma powr_1024_tenth: "(1024::real) powr (1 / 10) = 2"
proof -
  have "(1024::real) = 2 powr 10" by simp
  then have "(1024::real) powr (1 / 10) = (2 powr 10) powr (1 / 10)" by simp
  also have "\<dots> = 2 powr (10 * (1 / 10))" by (rule powr_powr)
  finally show ?thesis by simp
qed

lemma powr_1024_fifth: "(1024::real) powr (1 / 5) = 4"
proof -
  have "(1024::real) = 4 powr 5" by simp
  then have "(1024::real) powr (1 / 5) = (4 powr 5) powr (1 / 5)" by simp
  also have "\<dots> = 4 powr (5 * (1 / 5))" by (rule powr_powr)
  finally show ?thesis by simp
qed

lemma KSM1_m0_unit: "KSM1_m0 (const_window 1 1) = [Fin 10]"
  by (simp add: KSM1_m0_const m0_const_def)

lemma window_bounds_eq:
  assumes "numwin_of datasize winsize wininc = Inr numwin"
  shows "length (window_bounds datasize steps winsize wininc) = nat (numwin - steps)"
    and "i < nat (numwin - steps) \<Longrightarrow>
         window_bounds datasize steps winsize wininc ! i =
           ((int i + steps) * wininc, (int i + steps) * wininc + winsize)"
proof -
  show "length (window_bounds datasize steps winsize wininc) = nat (numwin - steps)"
    using assms by (simp add: window_bounds_def range_py_def)
  assume "i < nat (numwin - steps)"
  then have "i < length (range_py (numwin - steps))" by (simp add: range_py_def)
  then show "window_bounds datasize steps winsize wininc ! i =
           ((int i + steps) * wininc, (int i + steps) * wininc + winsize)"
    using assms by (simp add: window_bounds_def fTDD_bounds_nth algebra_simps)
qed

lemma fTDD_loop_runs_at_bounds:
  "fTDD_loop x steps wininc is st en feat = Inr feat' \<Longrightarrow> k < length is \<Longrightarrow>
     \<exists>v. fTDD_row x steps wininc (fst (fTDD_bounds wininc is st en ! k))
            (snd (fTDD_bounds wininc is st en ! k)) = Inr v"
proof (induction "is" arbitrary: st en feat k)
  case Nil
  then show ?case by simp
next
  case (Cons i "is")
  from Cons.prems(1) obtain v f1 where
    v: "fTDD_row x steps wininc st en = Inr v" and
    f1: "assign_row feat i v = Inr f1" and
    rest: "fTDD_loop x steps wininc is (st + wininc) (en + wininc) f1 = Inr feat'"
    by (auto split: sum.splits)
  show ?case
  proof (cases k)
    case 0
    then show ?thesis using v by simp
  next
    case (Suc k')
    then have "k' < length is" using Cons.prems(2) by simp
    from Cons.IH [OF rest this] show ?thesis using Suc by simp
  qed
qed

section \<open>Properties\<close>

text \<open>
  Claim C1, amended. For a two-dimensional \<open>x\<close> with \<open>Nsignals \<le> winsize \<le> datasize\<close>,
  \<open>1 \<le> steps < numwin\<close> and \<open>wininc \<ge> 1\<close>, the driver returns, and for every
  \<open>i < numwin - steps\<close> row \<open>i\<close> of its result is \<open>(num - den) * (num2 - den2)\<close>,
  with \<open>num\<close> and \<open>den\<close> formed from the extractor on the window at position \<open>i\<close>
  and on its nonlinear version, and \<open>num2\<close> and \<open>den2\<close> from the window at position
  \<open>i + steps\<close>. The bound \<open>Nsignals \<le> winsize\<close> is what the claim lacks.
\<close>

theorem getfTDDfeat_v2_row_fusion:
  assumes "wf_array x"
    and "numwin_of (nrows x) winsize wininc = Inr numwin"
    and "int (ncols x) \<le> winsize" and "winsize \<le> int (nrows x)"
    and "1 \<le> steps" and "steps < numwin" and "1 \<le> wininc"
    and "i < nat (numwin - steps)"
  shows "\<exists>feat. getfTDDfeat_v2 (Arr2 x) steps winsize wininc = Inr feat \<and>
           rows feat ! i =
             spec_fusion (window_at x winsize wininc (int i))
               (window_at x winsize wininc (int i + steps))"
proof -
  have "0 \<le> steps" "steps \<le> numwin" using assms(5,6) by simp_all
  from driver_returns [OF assms(1,2,7) this assms(3)] assms(8)
  show ?thesis by blast
qed

text \<open>The hypotheses hold for four samples of one channel and windows of two samples.\<close>

theorem getfTDDfeat_v2_row_fusion_witness:
  "wf_array ex_one_channel \<and>
   numwin_of (nrows ex_one_channel) 2 1 = Inr 3 \<and>
   int (ncols ex_one_channel) \<le> 2 \<and> (2::int) \<le> int (nrows ex_one_channel) \<and>
   (1::int) \<le> 1 \<and> (1::int) < 3 \<and> (0::nat) < nat (3 - 1) \<and>
   (\<exists>feat. getfTDDfeat_v2 (Arr2 ex_one_channel) 1 2 1 = Inr feat \<and>
      rows feat ! 0 =
        spec_fusion (window_at ex_one_channel 2 1 (int 0))
          (window_at ex_one_channel 2 1 (int 0 + 1)))"
proof -
  have h: "wf_array ex_one_channel" "numwin_of (nrows ex_one_channel) 2 1 = Inr 3"
    "int (ncols ex_one_channel) \<le> 2" "(2::int) \<le> int (nrows ex_one_channel)"
    "(1::int) \<le> 1" "(1::int) < 3" "(0::nat) < nat (3 - 1)"
    by (simp_all add: numwin_of_def)
  from getfTDDfeat_v2_row_fusion [OF h(1,2,3,4,5,6,5,7)] h show ?thesis by blast
qed

text \<open>
  Claim C1 as stated fails when a window has more channels than samples. With three
  samples of two channels, \<open>winsize = 1\<close>, \<open>wininc = 1\<close> and \<open>steps = 1\<close> the parameters
  are the claim's (\<open>numwin = 3\<close>), the extractor transposes each one-sample window and
  returns 6 values, and assigning them to a row of 12 raises: there is no output row.
\<close>

theorem getfTDDfeat_v2_row_fusion_wide_input:
  "wf_array ex_two_channel \<and> numwin_of (nrows ex_two_channel) 1 1 = Inr 3 \<and>
   getfTDDfeat_v2 (Arr2 ex_two_channel) 1 1 1 = Inl ValueError_broadcast"
proof -
  have h: "wf_array ex_two_channel" "numwin_of (nrows ex_two_channel) 1 1 = Inr 3"
    by (simp_all add: numwin_of_def)
  have "getfTDDfeat_v2 (Arr2 ex_two_channel) 1 1 1 = Inl ValueError_broadcast"
    by (rule driver_raises [OF h]) simp_all
  with h show ?thesis by blast
qed

text \<open>
  Claim C2, amended. For a two-dimensional \<open>x\<close> of shape \<open>(datasize, Nsignals)\<close> with
  \<open>winsize \<le> datasize\<close>, \<open>1 \<le> steps \<le> numwin\<close> and \<open>wininc \<ge> 1\<close>, and with
  \<open>Nsignals \<le> winsize\<close> or \<open>steps = numwin\<close>, the driver returns an array of shape
  \<open>(numwin - steps, Nsignals * 6)\<close>, where \<open>numwin\<close> is
  \<open>floor ((datasize - winsize) / wininc) + 1\<close>.
\<close>

theorem getfTDDfeat_v2_shape:
  assumes "wf_array x"
    and "numwin_of (nrows x) winsize wininc = Inr numwin"
    and "winsize \<le> int (nrows x)"
    and "1 \<le> steps" and "steps \<le> numwin" and "1 \<le> wininc"
    and "int (ncols x) \<le> winsize \<or> steps = numwin"
  shows "\<exists>feat. getfTDDfeat_v2 (Arr2 x) steps winsize wininc = Inr feat \<and>
           nrows feat = nat (numwin - steps) \<and> ncols feat = ncols x * 6 \<and> wf_array feat"
proof (cases "int (ncols x) \<le> winsize")
  case True
  have "0 \<le> steps" using assms(4) by simp
  from driver_returns [OF assms(1,2,6) this assms(5) True]
  show ?thesis by blast
next
  case False
  then have eq: "steps = numwin" using assms(7) by simp
  have "numwin_of (nrows (as_2d (Arr2 x))) winsize wininc = Inr steps"
    using assms(2) eq by (simp add: as_2d_def)
  from driver_no_windows [OF this]
  have "getfTDDfeat_v2 (Arr2 x) steps winsize wininc =
          Inr \<lparr>nrows = 0, ncols = ncols x * 6, rows = []\<rparr>"
    by (simp add: as_2d_def)
  then show ?thesis using eq by (simp add: wf_array_def)
qed

text \<open>The hypotheses hold for three samples of two channels and windows of two samples.\<close>

theorem getfTDDfeat_v2_shape_witness:
  "wf_array ex_two_channel \<and> numwin_of (nrows ex_two_channel) 2 1 = Inr 2 \<and>
   (2::int) \<le> int (nrows ex_two_channel) \<and> (1::int) \<le> 1 \<and> (1::int) \<le> 2 \<and>
   int (ncols ex_two_channel) \<le> 2 \<and>
   (\<exists>feat. getfTDDfeat_v2 (Arr2 ex_two_channel) 1 2 1 = Inr feat \<and>
      nrows feat = nat (2 - 1) \<and> ncols feat = ncols ex_two_channel * 6 \<and> wf_array feat)"
proof -
  have h: "wf_array ex_two_channel" "numwin_of (nrows ex_two_channel) 2 1 = Inr 2"
    "(2::int) \<le> int (nrows ex_two_channel)" "(1::int) \<le> 1" "(1::int) \<le> 2"
    "int (ncols ex_two_channel) \<le> 2"
    by (simp_all add: numwin_of_def)
  have d: "int (ncols ex_two_channel) \<le> 2 \<or> (1::int) = 2" using h(6) by simp
  from getfTDDfeat_v2_shape [OF h(1,2,3,4,5,4) d] h show ?thesis by blast
qed

text \<open>
  Claim C2 as stated fails for two samples of two channels with \<open>winsize = 1\<close>,
  \<open>wininc = 1\<close> and \<open>steps = 1\<close>: the parameters are valid (\<open>numwin = 2\<close>) and the
  call raises in its first iteration instead of returning an array of shape \<open>(1, 12)\<close>.
\<close>

theorem getfTDDfeat_v2_shape_wide_input:
  "wf_array ex_square \<and> numwin_of (nrows ex_square) 1 1 = Inr 2 \<and>
   (1::int) \<le> int (nrows ex_square) \<and>
   getfTDDfeat_v2 (Arr2 ex_square) 1 1 1 = Inl ValueError_broadcast"
proof -
  have h: "wf_array ex_square" "numwin_of (nrows ex_square) 1 1 = Inr 2"
    by (simp_all add: numwin_of_def)
  have "getfTDDfeat_v2 (Arr2 ex_square) 1 1 1 = Inl ValueError_broadcast"
    by (rule driver_raises [OF h]) simp_all
  with h show ?thesis by simp
qed

text \<open>
  Claim C3. For a block with at least as many samples as channels, the extractor returns
  \<open>6 * channels\<close> values: for channel \<open>j\<close>, the value at \<open>j\<close> is \<open>log |m0|\<close>, at
  \<open>channels + j\<close> \<open>log |m0 - m2|\<close>, at \<open>2 * channels + j\<close> \<open>log |m0 - m4|\<close>, at
  \<open>3 * channels + j\<close> the log of the sparseness, at \<open>4 * channels + j\<close> of the
  irregularity factor and at \<open>5 * channels + j\<close> of the waveform length ratio. The
  order does not depend on the number of samples, so the bound \<open>samples \<ge> 3\<close> of the
  claim is not needed.
\<close>

theorem KSM1_moment_major:
  assumes "ncols S \<le> nrows S" and "j < ncols S"
  shows "length (KSM1 S) = 6 * ncols S \<and>
       KSM1 S ! j = log_abs (KSM1_m0 S ! j) \<and>
       KSM1 S ! (ncols S + j) = log_abs (fsub (KSM1_m0 S ! j) (KSM1_m2 S ! j)) \<and>
       KSM1 S ! (2 * ncols S + j) = log_abs (fsub (KSM1_m0 S ! j) (KSM1_m4 S ! j)) \<and>
       KSM1 S ! (3 * ncols S + j) = log_abs (KSM1_sparsi S ! j) \<and>
       KSM1 S ! (4 * ncols S + j) = log_abs (KSM1_IRF S ! j) \<and>
       KSM1 S ! (5 * ncols S + j) = log_abs (KSM1_WLR S ! j)"
  using KSM1_layout [OF assms(1)] assms(2) by blast

text \<open>The second channel of three samples of two channels.\<close>

theorem KSM1_moment_major_witness:
  "ncols ex_two_channel \<le> nrows ex_two_channel \<and> (1::nat) < ncols ex_two_channel \<and>
   length (KSM1 ex_two_channel) = 6 * ncols ex_two_channel \<and>
   KSM1 ex_two_channel ! 1 = log_abs (KSM1_m0 ex_two_channel ! 1) \<and>
   KSM1 ex_two_channel ! (ncols ex_two_channel + 1) =
     log_abs (fsub (KSM1_m0 ex_two_channel ! 1) (KSM1_m2 ex_two_channel ! 1)) \<and>
   KSM1 ex_two_channel ! (2 * ncols ex_two_channel + 1) =
     log_abs (fsub (KSM1_m0 ex_two_channel ! 1) (KSM1_m4 ex_two_channel ! 1)) \<and>
   KSM1 ex_two_channel ! (3 * ncols ex_two_channel + 1) =
     log_abs (KSM1_sparsi ex_two_channel ! 1) \<and>
   KSM1 ex_two_channel ! (4 * ncols ex_two_channel + 1) =
     log_abs (KSM1_IRF ex_two_channel ! 1) \<and>
   KSM1 ex_two_channel ! (5 * ncols ex_two_channel + 1) =
     log_abs (KSM1_WLR ex_two_channel ! 1)"
proof -
  have h: "ncols ex_two_channel \<le> nrows ex_two_channel" "(1::nat) < ncols ex_two_channel"
    by simp_all
  from KSM1_moment_major [OF h] h show ?thesis by blast
qed

text \<open>
  Claim C4, amended. For a block of at least three samples, \<^verbatim>\<open>d1\<close> has one row less
  than the block and \<^verbatim>\<open>d2\<close> one row less than \<^verbatim>\<open>d1\<close>; both keep the column count.
  The zero row is put in front of the inner difference, and the outer difference takes
  the row away again.
\<close>

theorem KSM1_difference_rows:
  assumes "wf_array S" and "3 \<le> nrows S"
  shows "nrows (KSM1_d1 S) + 1 = nrows S \<and> length (rows (KSM1_d1 S)) + 1 = nrows S \<and>
         nrows (KSM1_d2 S) + 1 = nrows (KSM1_d1 S) \<and>
         length (rows (KSM1_d2 S)) + 1 = length (rows (KSM1_d1 S)) \<and>
         ncols (KSM1_d1 S) = ncols S \<and> ncols (KSM1_d2 S) = ncols S"
proof -
  have "length (rows S) = nrows S" using assms(1) by (simp add: wf_array_def)
  then show ?thesis using assms(2) by simp
qed

text \<open>Three samples of two channels.\<close>

theorem KSM1_difference_rows_witness:
  "wf_array ex_two_channel \<and> 3 \<le> nrows ex_two_channel \<and>
   nrows (KSM1_d1 ex_two_channel) + 1 = nrows ex_two_channel \<and>
   length (rows (KSM1_d1 ex_two_channel)) + 1 = nrows ex_two_channel \<and>
   nrows (KSM1_d2 ex_two_channel) + 1 = nrows (KSM1_d1 ex_two_channel) \<and>
   length (rows (KSM1_d2 ex_two_channel)) + 1 = length (rows (KSM1_d1 ex_two_channel)) \<and>
   ncols (KSM1_d1 ex_two_channel) = ncols ex_two_channel \<and>
   ncols (KSM1_d2 ex_two_channel) = ncols ex_two_channel"
proof -
  have h: "wf_array ex_two_channel" "3 \<le> nrows ex_two_channel" by simp_all
  from KSM1_difference_rows [OF h] h show ?thesis by blast
qed

text \<open>
  Claim C4 as stated fails: for three samples of two channels \<^verbatim>\<open>d1\<close> has two rows,
  not three.
\<close>

theorem KSM1_difference_rows_not_kept:
  "nrows ex_two_channel = 3 \<and> nrows (KSM1_d1 ex_two_channel) = 2 \<and>
   length (rows (KSM1_d1 ex_two_channel)) = 2 \<and>
   nrows (KSM1_d1 ex_two_channel) \<noteq> nrows ex_two_channel"
  by (simp add: ex_two_channel_def)

text \<open>
  Claim C5, amended. For a block with at least as many samples as channels and a factor
  \<open>k > 0\<close>, scaling the samples by \<open>k\<close> scales the root \<^verbatim>\<open>np.sqrt(np.sum(S**2))\<close> by
  \<open>k\<close> and the moment \<^verbatim>\<open>m0**.1/.1\<close> by \<open>k\<close> to the power 0.1, in the exact arithmetic
  of the model. The division by 0.1 is linear, so the factor is the same before it.
\<close>

theorem KSM1_m0_scaling:
  assumes "wf_array S" and "ncols S \<le> nrows S" and "0 < k"
  shows "KSM1_m0_root (orient (np_scale k S)) = map (fmul (Fin k)) (KSM1_m0_root (orient S)) \<and>
         KSM1_m0 (orient (np_scale k S)) =
           map (fmul (Fin (k powr (1 / 10)))) (KSM1_m0 (orient S))"
  using assms by (simp add: orient_scale_tall orient_tall KSM1_m0_scale KSM1_m0_root_scale)

text \<open>One sample of value 1, scaled by 1024.\<close>

theorem KSM1_m0_scaling_witness:
  "wf_array (const_window 1 1) \<and> ncols (const_window 1 1) \<le> nrows (const_window 1 1) \<and>
   (0::real) < 1024 \<and>
   KSM1_m0_root (orient (np_scale 1024 (const_window 1 1))) =
     map (fmul (Fin 1024)) (KSM1_m0_root (orient (const_window 1 1))) \<and>
   KSM1_m0 (orient (np_scale 1024 (const_window 1 1))) =
     map (fmul (Fin (1024 powr (1 / 10)))) (KSM1_m0 (orient (const_window 1 1)))"
proof -
  have h: "wf_array (const_window 1 1)" "ncols (const_window 1 1) \<le> nrows (const_window 1 1)"
    "(0::real) < 1024"
    by simp_all
  from KSM1_m0_scaling [OF h] h show ?thesis by blast
qed

text \<open>
  Claim C5 as stated fails: for one sample of value 1 the root is 1 and the moment is
  10; scaled by 1024 the root is 1024 and the moment is 20, and 1024 to the power 0.2
  times 10 is 40.
\<close>

theorem KSM1_m0_scaling_not_fifth_power:
  "KSM1_m0_root (orient (const_window 1 1)) = [Fin 1] \<and>
   KSM1_m0_root (orient (np_scale 1024 (const_window 1 1))) = [Fin 1024] \<and>
   KSM1_m0 (orient (const_window 1 1)) = [Fin 10] \<and>
   KSM1_m0 (orient (np_scale 1024 (const_window 1 1))) = [Fin 20] \<and>
   map (fmul (Fin (1024 powr (1 / 5)))) (KSM1_m0 (orient (const_window 1 1))) = [Fin 40]"
proof -
  have o: "orient (const_window 1 1) = const_window 1 1" by (simp add: orient_tall)
  have a: "KSM1_m0 (orient (const_window 1 1)) = [Fin 10]"
    unfolding o by (rule KSM1_m0_unit)
  have "KSM1_m0 (orient (np_scale 1024 (const_window 1 1))) =
        map (fmul (Fin (1024 powr (1 / 10)))) (KSM1_m0 (const_window 1 1))"
    by (simp add: orient_scale_tall KSM1_m0_scale)
  then have b: "KSM1_m0 (orient (np_scale 1024 (const_window 1 1))) = [Fin 20]"
    unfolding KSM1_m0_unit powr_1024_tenth by simp
  have c: "map (fmul (Fin (1024 powr (1 / 5)))) (KSM1_m0 (orient (const_window 1 1))) = [Fin 40]"
    unfolding a powr_1024_fifth by simp
  have r: "KSM1_m0_root (const_window 1 1) = [Fin 1]"
    unfolding KSM1_m0_root_def const_window_def np_sum0_const
    by (simp add: fsquare_def)
  have r1: "KSM1_m0_root (orient (const_window 1 1)) = [Fin 1]"
    unfolding o by (rule r)
  have "KSM1_m0_root (orient (np_scale 1024 (const_window 1 1))) =
        map (fmul (Fin 1024)) (KSM1_m0_root (const_window 1 1))"
    by (simp add: orient_scale_tall KSM1_m0_root_scale)
  then have r2: "KSM1_m0_root (orient (np_scale 1024 (const_window 1 1))) = [Fin 1024]"
    unfolding r by simp
  from r1 r2 a b c show ?thesis by blast
qed

text \<open>
  Claim C6. For a block with fewer channels than samples, the extractor returns for the
  transposed block, of shape \<open>(channels, samples)\<close>, what it returns for the block.
  An array is its shape and its entries here, and sums are exact, so the order in which
  numpy adds the entries of a transposed view is not part of the statement. The bound
  \<open>samples \<ge> 3\<close> of the claim is not needed.
\<close>

theorem KSM1_transpose_guard:
  assumes "wf_array S" and "ncols S < nrows S"
  shows "nrows (np_transpose S) = ncols S \<and> ncols (np_transpose S) = nrows S \<and>
         KSM1 (np_transpose S) = KSM1 S"
  using KSM1_transposed [OF assms] by (simp add: np_transpose_def)

text \<open>Three samples of two channels.\<close>

theorem KSM1_transpose_guard_witness:
  "wf_array ex_two_channel \<and> ncols ex_two_channel < nrows ex_two_channel \<and>
   nrows (np_transpose ex_two_channel) = ncols ex_two_channel \<and>
   ncols (np_transpose ex_two_channel) = nrows ex_two_channel \<and>
   KSM1 (np_transpose ex_two_channel) = KSM1 ex_two_channel"
proof -
  have h: "wf_array ex_two_channel" "ncols ex_two_channel < nrows ex_two_channel" by simp_all
  from KSM1_transpose_guard [OF h] h show ?thesis by blast
qed

text \<open>
  Claim C7, amended. For a window of \<open>n \<ge> 3\<close> samples of one channel that holds a
  nonzero \<open>c\<close> throughout, \<^verbatim>\<open>d1\<close> and \<^verbatim>\<open>d2\<close> are zero everywhere, \<^verbatim>\<open>m2\<close> and
  \<^verbatim>\<open>m4\<close> are zero, the irregularity factor and the waveform length ratio are NaN
  (both are 0/0), and the extractor returns the vector with these two NaN entries. The
  sparseness is \<open>m0 / sqrt |m0 * m0| = 1\<close>, so its entry is \<open>log 1 = 0\<close> and not NaN.
  The value of \<open>c * c\<close> is taken exactly, without overflow or underflow.
\<close>

theorem KSM1_constant_channel:
  assumes "3 \<le> n" and "c \<noteq> 0"
  shows "rows (KSM1_d1 (const_window n c)) = replicate (n - 1) [Fin 0] \<and>
         rows (KSM1_d2 (const_window n c)) = replicate (n - 2) [Fin 0] \<and>
         KSM1_m2 (const_window n c) = [Fin 0] \<and> KSM1_m4 (const_window n c) = [Fin 0] \<and>
         KSM1_sparsi (const_window n c) = [Fin 1] \<and>
         KSM1_IRF (const_window n c) = [NaN] \<and> KSM1_WLR (const_window n c) = [NaN] \<and>
         KSM1 (const_window n c) =
           [Fin (ln (m0_const n c)), Fin (ln (m0_const n c)), Fin (ln (m0_const n c)),
            Fin 0, NaN, NaN]"
proof -
  have n2: "2 \<le> n" using assms(1) by simp
  show ?thesis
    using KSM1_const [OF n2 assms(2)] KSM1_sparsi_const [OF n2 assms(2)] n2
    by (simp add: KSM1_d1_const KSM1_d2_const KSM1_m2_const KSM1_m4_const KSM1_IRF_const
          KSM1_WLR_const)
qed

text \<open>Three samples of value 1.\<close>

theorem KSM1_constant_channel_witness:
  "(3::nat) \<le> 3 \<and> (1::real) \<noteq> 0 \<and>
   rows (KSM1_d1 (const_window 3 1)) = replicate (3 - 1) [Fin 0] \<and>
   rows (KSM1_d2 (const_window 3 1)) = replicate (3 - 2) [Fin 0] \<and>
   KSM1_m2 (const_window 3 1) = [Fin 0] \<and> KSM1_m4 (const_window 3 1) = [Fin 0] \<and>
   KSM1_sparsi (const_window 3 1) = [Fin 1] \<and>
   KSM1_IRF (const_window 3 1) = [NaN] \<and> KSM1_WLR (const_window 3 1) = [NaN] \<and>
   KSM1 (const_window 3 1) =
     [Fin (ln (m0_const 3 1)), Fin (ln (m0_const 3 1)), Fin (ln (m0_const 3 1)),
      Fin 0, NaN, NaN]"
proof -
  have h: "(3::nat) \<le> 3" "(1::real) \<noteq> 0" by simp_all
  from KSM1_constant_channel [OF h] h show ?thesis by blast
qed

text \<open>
  Claim C7 as stated fails in its sparseness entry: for three samples of value 2 the
  sparseness is 1 and the entry at index 3 of the output is 0.
\<close>

theorem KSM1_constant_channel_sparseness_finite:
  "KSM1_sparsi (const_window 3 2) = [Fin 1] \<and> KSM1 (const_window 3 2) ! 3 = Fin 0 \<and>
   KSM1 (const_window 3 2) ! 3 \<noteq> NaN"
proof -
  have h: "(2::nat) \<le> 3" "(2::real) \<noteq> 0" by simp_all
  show ?thesis
    using KSM1_const [OF h] KSM1_sparsi_const [OF h] by simp
qed

text \<open>
  Claim C8. For a one-dimensional \<open>x\<close> of length \<open>datasize\<close> and valid parameters
  (\<open>1 \<le> winsize \<le> datasize\<close>, \<open>1 \<le> steps \<le> numwin\<close>, \<open>wininc \<ge> 1\<close>), the driver
  returns what it returns for the \<open>(datasize, 1)\<close> column form of \<open>x\<close>, and the result
  has shape \<open>(numwin - steps, 6)\<close>.
\<close>

theorem getfTDDfeat_v2_one_dimensional:
  assumes "numwin_of (length v) winsize wininc = Inr numwin"
    and "1 \<le> winsize" and "winsize \<le> int (length v)"
    and "1 \<le> steps" and "steps \<le> numwin" and "1 \<le> wininc"
  shows "nrows (newaxis_col v) = length v \<and> ncols (newaxis_col v) = 1 \<and>
         getfTDDfeat_v2 (Arr1 v) steps winsize wininc =
           getfTDDfeat_v2 (Arr2 (newaxis_col v)) steps winsize wininc \<and>
         (\<exists>feat. getfTDDfeat_v2 (Arr1 v) steps winsize wininc = Inr feat \<and>
            nrows feat = nat (numwin - steps) \<and> ncols feat = 6 \<and> wf_array feat)"
proof -
  have same: "getfTDDfeat_v2 (Arr1 v) steps winsize wininc =
              getfTDDfeat_v2 (Arr2 (newaxis_col v)) steps winsize wininc"
    by (simp add: getfTDDfeat_v2_def as_2d_def)
  have nw: "numwin_of (nrows (newaxis_col v)) winsize wininc = Inr numwin"
    using assms(1) by simp
  have w: "int (ncols (newaxis_col v)) \<le> winsize" using assms(2) by simp
  have s0: "0 \<le> steps" using assms(4) by simp
  from driver_returns [OF wf_newaxis_col nw assms(6) s0 assms(5) w]
  obtain feat where "getfTDDfeat_v2 (Arr2 (newaxis_col v)) steps winsize wininc = Inr feat"
    "nrows feat = nat (numwin - steps)" "ncols feat = 6" "wf_array feat"
    by auto
  then show ?thesis using same by simp
qed

text \<open>Four samples and windows of two samples.\<close>

theorem getfTDDfeat_v2_one_dimensional_witness:
  "numwin_of (length [Fin 1, Fin 2, Fin 4, Fin 7]) 2 1 = Inr 3 \<and>
   (1::int) \<le> 2 \<and> (2::int) \<le> int (length [Fin 1, Fin 2, Fin 4, Fin 7]) \<and>
   (1::int) \<le> 1 \<and> (1::int) \<le> 3 \<and>
   nrows (newaxis_col [Fin 1, Fin 2, Fin 4, Fin 7]) = length [Fin 1, Fin 2, Fin 4, Fin 7] \<and>
   ncols (newaxis_col [Fin 1, Fin 2, Fin 4, Fin 7]) = 1 \<and>
   getfTDDfeat_v2 (Arr1 [Fin 1, Fin 2, Fin 4, Fin 7]) 1 2 1 =
     getfTDDfeat_v2 (Arr2 (newaxis_col [Fin 1, Fin 2, Fin 4, Fin 7])) 1 2 1 \<and>
   (\<exists>feat. getfTDDfeat_v2 (Arr1 [Fin 1, Fin 2, Fin 4, Fin 7]) 1 2 1 = Inr feat \<and>
      nrows feat = nat (3 - 1) \<and> ncols feat = 6 \<and> wf_array feat)"
proof -
  have h: "numwin_of (length [Fin 1, Fin 2, Fin 4, Fin 7]) 2 1 = Inr 3"
    "(1::int) \<le> 2" "(2::int) \<le> int (length [Fin 1, Fin 2, Fin 4, Fin 7])"
    "(1::int) \<le> 1" "(1::int) \<le> 3"
    by (simp_all add: numwin_of_def)
  from getfTDDfeat_v2_one_dimensional [OF h(1,2,3,4,5,4)] h show ?thesis by blast
qed

text \<open>
  Claim C9, amended. For \<open>1 \<le> winsize \<le> datasize\<close>, \<open>1 \<le> steps \<le> numwin\<close> and
  \<open>wininc \<ge> 1\<close>, the bounds \<open>(st, en)\<close> of iteration \<open>i < numwin - steps\<close> are
  \<open>st = (i + steps) * wininc\<close> and \<open>en = st + winsize\<close>, with
  \<open>0 \<le> st < en \<le> datasize\<close>, \<open>0 \<le> st - steps * wininc\<close> and
  \<open>en - steps * wininc \<le> datasize\<close>, and both slices have \<open>winsize\<close> rows. The
  bound \<open>1 \<le> winsize\<close>, which the interface asks of its callers, is what the claim
  lacks.
\<close>

theorem getfTDDfeat_v2_slices_in_range:
  assumes "wf_array x"
    and "numwin_of (nrows x) winsize wininc = Inr numwin"
    and "1 \<le> winsize" and "winsize \<le> int (nrows x)"
    and "1 \<le> steps" and "steps \<le> numwin" and "1 \<le> wininc"
    and "i < nat (numwin - steps)"
    and "window_bounds (nrows x) steps winsize wininc ! i = (st, en)"
  shows "length (window_bounds (nrows x) steps winsize wininc) = nat (numwin - steps) \<and>
         st = (int i + steps) * wininc \<and> en = st + winsize \<and>
         0 \<le> st \<and> st < en \<and> en \<le> int (nrows x) \<and>
         0 \<le> st - steps * wininc \<and> en - steps * wininc \<le> int (nrows x) \<and>
         nrows (slice_rows x st en) = nat winsize \<and>
         length (rows (slice_rows x st en)) = nat winsize \<and>
         nrows (slice_rows x (st - steps * wininc) (en - steps * wininc)) = nat winsize \<and>
         length (rows (slice_rows x (st - steps * wininc) (en - steps * wininc))) = nat winsize"
proof -
  have nwv: "numwin = (int (nrows x) - winsize) div wininc + 1"
    using assms(2) by (simp add: numwin_of_Inr)
  have inc: "0 < wininc" using assms(7) by simp
  have w0: "0 \<le> winsize" using assms(3) by simp
  have st: "st = (int i + steps) * wininc" and en: "en = (int i + steps) * wininc + winsize"
    using window_bounds_eq(2) [OF assms(2,8)] assms(9) by simp_all
  have kc: "0 \<le> int i + steps" using assms(5) by simp
  have k: "int i + steps \<le> (int (nrows x) - winsize) div wininc"
    using assms(8) nwv by simp
  have k0: "int i \<le> (int (nrows x) - winsize) div wininc" using k assms(5) by simp
  note c = window_at_in [OF assms(1) inc kc k w0]
  note l = window_at_in [OF assms(1) inc _ k0 w0, simplified]
  have cur: "slice_rows x st en = window_at x winsize wininc (int i + steps)"
    by (simp add: window_at_def st en)
  have lag: "slice_rows x (st - steps * wininc) (en - steps * wininc) =
             window_at x winsize wininc (int i)"
    by (simp add: window_at_def st en algebra_simps)
  have lagb: "st - steps * wininc = int i * wininc"
    "en - steps * wininc = int i * wininc + winsize"
    by (simp_all add: st en algebra_simps)
  have len: "length (window_bounds (nrows x) steps winsize wininc) = nat (numwin - steps)"
    by (rule window_bounds_eq(1) [OF assms(2)])
  have e1: "en = st + winsize" using st en by simp
  have b1: "0 \<le> st" using c(1) st by simp
  have b2: "st < en" using e1 assms(3) by simp
  have b3: "en \<le> int (nrows x)" using c(2) en by simp
  have b4: "0 \<le> st - steps * wininc" using l(1) lagb(1) by simp
  have b5: "en - steps * wininc \<le> int (nrows x)" using l(2) lagb(2) by simp
  have c3: "nrows (slice_rows x st en) = nat winsize" using c(3) cur by simp
  have c5: "length (rows (slice_rows x st en)) = nat winsize" using c(5) cur by simp
  have l3: "nrows (slice_rows x (st - steps * wininc) (en - steps * wininc)) = nat winsize"
    using l(3) lag by simp
  have l5: "length (rows (slice_rows x (st - steps * wininc) (en - steps * wininc))) = nat winsize"
    using l(5) lag by simp
  from len st e1 b1 b2 b3 b4 b5 c3 c5 l3 l5 show ?thesis by blast
qed

text \<open>The second iteration for four samples of one channel and windows of two samples.\<close>

theorem getfTDDfeat_v2_slices_in_range_witness:
  "wf_array ex_one_channel \<and> numwin_of (nrows ex_one_channel) 2 1 = Inr 3 \<and>
   (1::int) \<le> 2 \<and> (2::int) \<le> int (nrows ex_one_channel) \<and> (1::int) \<le> 1 \<and>
   (1::int) \<le> 3 \<and> (1::nat) < nat (3 - 1) \<and>
   window_bounds (nrows ex_one_channel) 1 2 1 ! 1 = (2, 4) \<and>
   length (window_bounds (nrows ex_one_channel) 1 2 1) = nat (3 - 1) \<and>
   (2::int) = (int 1 + 1) * 1 \<and> (4::int) = 2 + 2 \<and>
   (0::int) \<le> 2 \<and> (2::int) < 4 \<and> (4::int) \<le> int (nrows ex_one_channel) \<and>
   (0::int) \<le> 2 - 1 * 1 \<and> (4::int) - 1 * 1 \<le> int (nrows ex_one_channel) \<and>
   nrows (slice_rows ex_one_channel 2 4) = nat 2 \<and>
   length (rows (slice_rows ex_one_channel 2 4)) = nat 2 \<and>
   nrows (slice_rows ex_one_channel (2 - 1 * 1) (4 - 1 * 1)) = nat 2 \<and>
   length (rows (slice_rows ex_one_channel (2 - 1 * 1) (4 - 1 * 1))) = nat 2"
proof -
  have h: "wf_array ex_one_channel" "numwin_of (nrows ex_one_channel) 2 1 = Inr 3"
    "(1::int) \<le> 2" "(2::int) \<le> int (nrows ex_one_channel)" "(1::int) \<le> 1"
    "(1::int) \<le> 3" "(1::nat) < nat (3 - 1)"
    by (simp_all add: numwin_of_def)
  have b: "window_bounds (nrows ex_one_channel) 1 2 1 ! 1 = (2, 4)"
    using window_bounds_eq(2) [OF h(2) h(7)] by simp
  from getfTDDfeat_v2_slices_in_range [OF h(1,2,3,4,5,6,5,7) b] h b show ?thesis by blast
qed

text \<open>
  Claim C9 as stated fails for \<open>winsize = 0\<close>, which satisfies \<open>winsize \<le> datasize\<close>:
  with one sample, \<open>wininc = 1\<close> and \<open>steps = 1\<close> (\<open>numwin = 2\<close>) the only iteration has
  \<open>st = en = 1\<close>.
\<close>

theorem getfTDDfeat_v2_slices_empty_window:
  "numwin_of 1 0 1 = Inr 2 \<and> (0::int) \<le> int 1 \<and> (1::int) \<le> 2 \<and>
   window_bounds 1 1 0 1 = [(1, 1)] \<and>
   \<not> fst (window_bounds 1 1 0 1 ! 0) < snd (window_bounds 1 1 0 1 ! 0)"
  by (simp add: numwin_of_def window_bounds_def range_py_def)

text \<open>
  Claim C10. When \<open>steps\<close> is the \<open>numwin\<close> the driver computes, the driver returns the
  array of shape \<open>(0, Nsignals * 6)\<close> and raises nothing. The range of its loop is empty,
  so the loop body, the only place that slices \<open>x\<close> or calls the extractor, never runs,
  and the list of slice bounds of the call is empty.
\<close>

theorem getfTDDfeat_v2_no_windows:
  assumes "numwin_of (nrows (as_2d xin)) winsize wininc = Inr numwin"
    and "steps = numwin"
  shows "getfTDDfeat_v2 xin steps winsize wininc =
           Inr \<lparr>nrows = 0, ncols = ncols (as_2d xin) * 6, rows = []\<rparr> \<and>
         range_py (numwin - steps) = [] \<and>
         window_bounds (nrows (as_2d xin)) steps winsize wininc = []"
proof -
  have a: "numwin_of (nrows (as_2d xin)) winsize wininc = Inr steps"
    using assms by simp
  show ?thesis
    using driver_no_windows [OF a] assms
    by (simp add: range_py_def window_bounds_def)
qed

text \<open>Three samples of two channels, windows of one sample and \<open>steps = 3\<close>.\<close>

theorem getfTDDfeat_v2_no_windows_witness:
  "numwin_of (nrows (as_2d (Arr2 ex_two_channel))) 1 1 = Inr 3 \<and> (3::int) = 3 \<and>
   getfTDDfeat_v2 (Arr2 ex_two_channel) 3 1 1 =
     Inr \<lparr>nrows = 0, ncols = ncols (as_2d (Arr2 ex_two_channel)) * 6, rows = []\<rparr> \<and>
   range_py (3 - 3) = [] \<and>
   window_bounds (nrows (as_2d (Arr2 ex_two_channel))) 3 1 1 = []"
proof -
  have h: "numwin_of (nrows (as_2d (Arr2 ex_two_channel))) 1 1 = Inr 3" "(3::int) = 3"
    by (simp_all add: numwin_of_def as_2d_def)
  from getfTDDfeat_v2_no_windows [OF h] h show ?thesis by blast
qed

end
